theory Spec2Isabelle
  imports Main
begin

section \<open>The gtthreads scheduler (gtthread\_sched.c)\<close>

text \<open>
  The scheduler keeps its state in file-level globals: two queues of descriptor
  pointers, the pointer to the running descriptor, the identity counter and the
  signal set. The descriptors live on the C heap and are shared between the
  globals by pointer, so the model keeps an explicit store: a descriptor is
  named by its address, and the queues and \<open>current\<close> hold addresses.
\<close>

subsection \<open>Data\<close>

type_synonym addr = nat
type_synonym voidp = nat

text \<open>
  Modelled from the spec: \<open>gtthread_t\<close> is declared in gtthread.h, which is not
  among the sources. The spec calls a thread identity "a monotonically
  increasing positive integer" with 0 the sentinel "no thread"; the model takes
  an unbounded natural number.
\<close>

type_synonym gtthread_t = nat

text \<open>The three \<open>#define\<close>d values of the \<open>state\<close> field, the only ones ever stored.\<close>

datatype tstate = GTTHREAD_RUNNING | GTTHREAD_CANCEL | GTTHREAD_DONE

text \<open>The numeric value of a state constant, as used by the cast \<open>(void*) GTTHREAD_CANCEL\<close>.\<close>

fun state_code :: "tstate \<Rightarrow> voidp" where
  "state_code GTTHREAD_RUNNING = 0"
| "state_code GTTHREAD_CANCEL = 1"
| "state_code GTTHREAD_DONE = 2"

text \<open>
  The part of \<open>ucontext_t\<close> the scheduler writes: the stack pointer of
  \<open>uc_stack\<close> (0 is \<open>NULL\<close>), \<open>uc_link\<close>, and the entry that
  \<open>makecontext\<close> stores (the start routine and its argument, handed to
  \<open>gtthread_start\<close>). The saved registers are not modelled.
\<close>

record ucontext_t =
  ss_sp :: addr
  uc_link :: addr
  uc_entry :: "(voidp \<times> voidp) option"

text \<open>
  \<open>struct Thread_t\<close>. The field \<open>ucp\<close> is a pointer to a separately
  allocated context; no two descriptors ever share one, so the model stores the
  context in the field, \<open>None\<close> for \<open>NULL\<close>. Freeing the stack and the
  context and storing \<open>NULL\<close> is the update \<open>ucp := None\<close>.
\<close>

record thread_t =
  tid :: gtthread_t
  joining :: gtthread_t
  state :: tstate
  proc :: voidp
  arg :: voidp
  retval :: voidp
  ucp :: "ucontext_t option"

text \<open>
  The globals, the descriptor store \<open>heap\<close> with the next address
  \<open>malloc\<close> hands out, and the caller's memory \<open>mem\<close> that the
  out-parameters point into. \<open>blocked\<close> says whether SIGVTALRM is in the
  process signal mask; \<open>timer\<close> is the armed period and \<open>handler_set\<close>
  whether \<open>sigaction\<close> has installed the handler.
\<close>

record sched =
  ready_queue :: "addr list"
  zombie_queue :: "addr list"
  current :: addr
  maxtid :: gtthread_t
  blocked :: bool
  timer :: "int option"
  handler_set :: bool
  heap :: "addr \<Rightarrow> thread_t"
  brk :: addr
  mem :: "addr \<Rightarrow> voidp"

text \<open>
  How a call ends when it does not return to its caller now:
  \<open>swapcontext\<close> suspended the caller and the new \<open>current\<close> runs
  (\<open>Switch\<close>), \<open>setcontext\<close> installed the new \<open>current\<close> and
  dropped the caller (\<open>Install\<close>), \<open>exit\<close> ended the process, or the
  call ran into undefined behaviour.
\<close>

datatype fault = Steque_underflow | Null_context

datatype exit_status = EXIT_FAILURE | Long voidp

datatype transfer = Switch sched | Install sched | Exit exit_status | Fault fault

datatype 'r outcome = Return 'r sched | NoReturn transfer

text \<open>The results of the host primitives whose failure the source tests.\<close>

record host =
  getcontext_ret :: int
  setitimer_ret :: int
  sigaction_ret :: int

subsection \<open>The queue\<close>

text \<open>
  Modelled from the spec: steque.h and steque.c are not among the sources. The
  spec describes "a generic first-in-first-out container of opaque items" with
  "constructor (init-empty), enqueue-tail, pop-head, is-empty, forward iteration
  from head". The spec gives no meaning to a pop from the empty queue; the model
  returns \<open>None\<close> there and the callers turn it into a fault.
\<close>

definition steque_init :: "addr list" where
  "steque_init = []"

definition steque_isempty :: "addr list \<Rightarrow> bool" where
  "steque_isempty q = (q = [])"

definition steque_enqueue :: "addr list \<Rightarrow> addr \<Rightarrow> addr list" where
  "steque_enqueue q x = q @ [x]"

definition steque_pop :: "addr list \<Rightarrow> (addr \<times> addr list) option" where
  "steque_pop q = (case q of [] \<Rightarrow> None | x # r \<Rightarrow> Some (x, r))"

subsection \<open>Host services\<close>

definition sigprocmask_block :: "sched \<Rightarrow> sched" where
  "sigprocmask_block s = s\<lparr>blocked := True\<rparr>"

definition sigprocmask_unblock :: "sched \<Rightarrow> sched" where
  "sigprocmask_unblock s = s\<lparr>blocked := False\<rparr>"

text \<open>
  \<open>malloc\<close>: a block no live pointer refers to. Descriptors are never freed,
  so a counter that only grows gives that; the source does not test for
  \<open>NULL\<close>, and the model has no failing allocation.
\<close>

definition malloc :: "sched \<Rightarrow> addr \<times> sched" where
  "malloc s = (brk s, s\<lparr>brk := Suc (brk s)\<rparr>)"

text \<open>A context after \<open>memset(ucp, 0, sizeof(ucontext_t))\<close> and \<open>getcontext\<close>.\<close>

definition zero_context :: ucontext_t where
  "zero_context = \<lparr>ss_sp = 0, uc_link = 0, uc_entry = None\<rparr>"

text \<open>
  \<open>swapcontext(prev->ucp, current->ucp)\<close> and \<open>setcontext(current->ucp)\<close>:
  both read through the context pointers they are given.
\<close>

definition swapcontext :: "sched \<Rightarrow> addr \<Rightarrow> addr \<Rightarrow> transfer" where
  "swapcontext s prev nxt =
     (case ucp (heap s prev) of
        None \<Rightarrow> Fault Null_context
      | Some c \<Rightarrow> (case ucp (heap s nxt) of
                    None \<Rightarrow> Fault Null_context
                  | Some d \<Rightarrow> Switch s))"

definition setcontext :: "sched \<Rightarrow> addr \<Rightarrow> transfer" where
  "setcontext s nxt =
     (case ucp (heap s nxt) of
        None \<Rightarrow> Fault Null_context
      | Some d \<Rightarrow> Install s)"

subsection \<open>thread\_get\<close>

text \<open>One of the two \<open>while\<close> loops of \<open>thread_get\<close>: the first item with the identity.\<close>

fun scan :: "(addr \<Rightarrow> thread_t) \<Rightarrow> gtthread_t \<Rightarrow> addr list \<Rightarrow> addr option" where
  "scan h i [] = None"
| "scan h i (a # r) = (if tid (h a) = i then Some a else scan h i r)"

definition thread_get :: "sched \<Rightarrow> gtthread_t \<Rightarrow> addr option" where
  "thread_get s i =
     (case scan (heap s) i (ready_queue s) of
        Some t \<Rightarrow> Some t
      | None \<Rightarrow> scan (heap s) i (zombie_queue s))"

subsection \<open>gtthread\_init\<close>

text \<open>
  The globals as the C runtime leaves them at program start: statics are zero,
  so both queues have a \<open>NULL\<close> front (the loops of \<open>thread_get\<close> read
  that as empty), \<open>current\<close> is \<open>NULL\<close> and \<open>maxtid\<close> is 0. What
  \<open>malloc\<close> will return is not initialised, so the contents of the store are
  a parameter. SIGVTALRM is taken as not blocked; \<open>gtthread_init\<close> unblocks
  it in any case.
\<close>

definition program_start :: "(addr \<Rightarrow> thread_t) \<Rightarrow> (addr \<Rightarrow> voidp) \<Rightarrow> sched" where
  "program_start h m =
     \<lparr>ready_queue = [], zombie_queue = [], current = 0, maxtid = 0,
      blocked = False, timer = None, handler_set = False,
      heap = h, brk = 1, mem = m\<rparr>"

definition gtthread_init :: "int \<Rightarrow> host \<Rightarrow> sched \<Rightarrow> unit outcome" where
  "gtthread_init period hst s0 =
     (let s1 = s0\<lparr>maxtid := 1\<rparr>;
          s2 = s1\<lparr>ready_queue := steque_init\<rparr>;
          (main_thread, s3) = malloc s2;
          s4 = s3\<lparr>heap := (heap s3)(main_thread := (heap s3 main_thread)\<lparr>tid := maxtid s3\<rparr>),
                  maxtid := Suc (maxtid s3)\<rparr>;
          s5 = s4\<lparr>heap := (heap s4)(main_thread := (heap s4 main_thread)
                  \<lparr>ucp := Some zero_context, arg := 0,
                   state := GTTHREAD_RUNNING, joining := 0\<rparr>)\<rparr>
      in if getcontext_ret hst = - 1 then NoReturn (Exit EXIT_FAILURE)
         else
           let s6 = s5\<lparr>current := main_thread\<rparr>;
               s7 = sigprocmask_unblock s6;
               s8 = s7\<lparr>timer := Some period\<rparr>
           in if setitimer_ret hst < 0 then NoReturn (Exit EXIT_FAILURE)
              else if sigaction_ret hst < 0 then NoReturn (Exit EXIT_FAILURE)
              else Return () (s8\<lparr>handler_set := True\<rparr>))"

subsection \<open>gtthread\_create\<close>

definition gtthread_create ::
  "sched \<Rightarrow> addr \<Rightarrow> voidp \<Rightarrow> voidp \<Rightarrow> host \<Rightarrow> int outcome" where
  "gtthread_create s0 thread start_routine a hst =
     (let s1 = sigprocmask_block s0;
          (t, s2) = malloc s1;
          i = maxtid s2;
          s3 = s2\<lparr>maxtid := Suc i,
                  heap := (heap s2)(t := (heap s2 t)\<lparr>tid := i\<rparr>),
                  mem := (mem s2)(thread := i)\<rparr>;
          s4 = s3\<lparr>heap := (heap s3)(t := (heap s3 t)
                  \<lparr>state := GTTHREAD_RUNNING, proc := start_routine, arg := a,
                   ucp := Some zero_context, joining := 0\<rparr>)\<rparr>
      in if getcontext_ret hst = - 1 then NoReturn (Exit EXIT_FAILURE)
         else
           let (stack, s5) = malloc s4;
               c = \<lparr>ss_sp = stack, uc_link = 0, uc_entry = Some (start_routine, a)\<rparr>;
               s6 = s5\<lparr>heap := (heap s5)(t := (heap s5 t)\<lparr>ucp := Some c\<rparr>)\<rparr>;
               s7 = s6\<lparr>ready_queue := steque_enqueue (ready_queue s6) t\<rparr>
           in Return 0 (sigprocmask_unblock s7))"

subsection \<open>sigvtalrm\_handler\<close>

text \<open>
  The \<open>while\<close> loop of the handler, entered with the descriptor just popped:
  a cancelled one goes to the zombie queue and the next is popped, with no test
  that the ready queue still holds one.
\<close>

function handler_skip :: "sched \<Rightarrow> addr \<Rightarrow> fault + (addr \<times> sched)" where
  "handler_skip s nxt =
     (if state (heap s nxt) = GTTHREAD_CANCEL then
        (let s1 = s\<lparr>zombie_queue := steque_enqueue (zombie_queue s) nxt\<rparr>
         in case steque_pop (ready_queue s1) of
              None \<Rightarrow> Inl Steque_underflow
            | Some (n, q) \<Rightarrow> handler_skip (s1\<lparr>ready_queue := q\<rparr>) n)
      else Inr (nxt, s))"
  by pat_completeness auto
termination
  by (relation "measure (\<lambda>(s, n). length (ready_queue s))")
     (auto simp: steque_pop_def split: list.splits)

declare handler_skip.simps [simp del]

definition sigvtalrm_handler :: "sched \<Rightarrow> unit outcome" where
  "sigvtalrm_handler s0 =
     (let s = sigprocmask_block s0
      in if steque_isempty (ready_queue s) then Return () s
         else
           (case steque_pop (ready_queue s) of
              None \<Rightarrow> NoReturn (Fault Steque_underflow)
            | Some (n, q) \<Rightarrow>
               (case handler_skip (s\<lparr>ready_queue := q\<rparr>) n of
                  Inl f \<Rightarrow> NoReturn (Fault f)
                | Inr (nxt, s1) \<Rightarrow>
                   (let prev = current s1;
                        s2 = s1\<lparr>ready_queue := steque_enqueue (ready_queue s1) (current s1)\<rparr>;
                        s3 = s2\<lparr>heap := (heap s2)(nxt := (heap s2 nxt)\<lparr>state := GTTHREAD_RUNNING\<rparr>)\<rparr>;
                        s4 = s3\<lparr>current := nxt\<rparr>;
                        s5 = sigprocmask_unblock s4
                    in NoReturn (swapcontext s5 prev (current s5))))))"

text \<open>
  A thread suspended inside the handler continues after \<open>swapcontext\<close>
  when it is installed again: the handler returns to whoever called it, in the
  state the scheduler is in at that moment.
\<close>

subsection \<open>gtthread\_yield\<close>

definition gtthread_yield :: "sched \<Rightarrow> int outcome" where
  "gtthread_yield s0 =
     (let s = sigprocmask_block s0
      in if steque_isempty (ready_queue s) then Return 0 s
         else
           (case steque_pop (ready_queue s) of
              None \<Rightarrow> NoReturn (Fault Steque_underflow)
            | Some (nxt, q) \<Rightarrow>
               (let s1 = s\<lparr>ready_queue := q\<rparr>;
                    prev = current s1;
                    s2 = s1\<lparr>ready_queue := steque_enqueue (ready_queue s1) (current s1)\<rparr>;
                    s3 = s2\<lparr>current := nxt\<rparr>;
                    s4 = sigprocmask_unblock s3
                in NoReturn (swapcontext s4 prev (current s4)))))"

text \<open>The rest of \<open>gtthread_yield\<close>, run when the caller is installed again: \<open>return 0\<close>.\<close>

definition gtthread_yield_resume :: "sched \<Rightarrow> int outcome" where
  "gtthread_yield_resume s = Return 0 s"

subsection \<open>gtthread\_exit\<close>

text \<open>
  The loop of the main thread, from its test: while the ready queue holds a
  descriptor, unblock, call the handler, block again; then unblock and
  \<open>exit\<close>. A handler call that switches away suspends the loop; it goes on
  with \<open>exit_main_resume\<close>.
\<close>

function exit_main_loop :: "sched \<Rightarrow> voidp \<Rightarrow> transfer" where
  "exit_main_loop s rv =
     (if \<not> steque_isempty (ready_queue s) then
        (case sigvtalrm_handler (sigprocmask_unblock s) of
           Return u s' \<Rightarrow> exit_main_loop (sigprocmask_block s') rv
         | NoReturn x \<Rightarrow> x)
      else Exit (Long rv))"
  by pat_completeness auto
termination
proof (relation "{}")
  show "wf {}" by simp
next
  fix s :: sched and rv :: voidp and u :: unit and s' :: sched
  assume "\<not> steque_isempty (ready_queue s)"
    and "sigvtalrm_handler (sigprocmask_unblock s) = Return u s'"
  then have False
    by (auto simp: sigvtalrm_handler_def Let_def steque_isempty_def
        sigprocmask_block_def sigprocmask_unblock_def
        split: if_splits option.splits sum.splits prod.splits)
  then show "((sigprocmask_block s', rv), (s, rv)) \<in> {}" ..
qed

declare exit_main_loop.simps [simp del]

definition exit_main_resume :: "sched \<Rightarrow> voidp \<Rightarrow> transfer" where
  "exit_main_resume s rv = exit_main_loop (sigprocmask_block s) rv"

definition gtthread_exit :: "sched \<Rightarrow> voidp \<Rightarrow> transfer" where
  "gtthread_exit s0 rv =
     (let s = sigprocmask_block s0
      in if steque_isempty (ready_queue s) then Exit (Long rv)
         else if tid (heap s (current s)) = 1 then exit_main_loop s rv
         else
           (let prev = current s
            in case steque_pop (ready_queue s) of
                 None \<Rightarrow> Fault Steque_underflow
               | Some (nxt, q) \<Rightarrow>
                  (let s1 = s\<lparr>ready_queue := q, current := nxt\<rparr>;
                       s2 = s1\<lparr>heap := (heap s1)(current s1 :=
                              (heap s1 (current s1))\<lparr>state := GTTHREAD_RUNNING\<rparr>)\<rparr>
                   in case ucp (heap s2 prev) of
                        None \<Rightarrow> Fault Null_context
                      | Some c \<Rightarrow>
                         (let s3 = s2\<lparr>heap := (heap s2)(prev := (heap s2 prev)\<lparr>ucp := None\<rparr>)\<rparr>;
                              s4 = s3\<lparr>heap := (heap s3)(prev := (heap s3 prev)
                                     \<lparr>state := GTTHREAD_DONE, retval := rv, joining := 0\<rparr>)\<rparr>;
                              s5 = s4\<lparr>zombie_queue := steque_enqueue (zombie_queue s4) prev\<rparr>;
                              s6 = sigprocmask_unblock s5
                          in setcontext s6 (current s6)))))"

subsection \<open>gtthread\_join\<close>

text \<open>The statements after the loop: the result goes to \<open>*status\<close> unless it is \<open>NULL\<close>.\<close>

definition join_finish :: "sched \<Rightarrow> addr \<Rightarrow> addr option \<Rightarrow> int outcome" where
  "join_finish s t status =
     (case status of
        None \<Rightarrow> Return 0 s
      | Some p \<Rightarrow>
         (if state (heap s t) = GTTHREAD_CANCEL
          then Return 0 (s\<lparr>mem := (mem s)(p := state_code GTTHREAD_CANCEL)\<rparr>)
          else if state (heap s t) = GTTHREAD_DONE
          then Return 0 (s\<lparr>mem := (mem s)(p := retval (heap s t))\<rparr>)
          else Return 0 s))"

text \<open>
  The waiting loop, from its test. A handler call that comes back at once (the
  ready queue was empty) leaves the target as it was, and the loop spins: the
  value \<open>None\<close> is a call that never gets anywhere. A handler call that
  switches away suspends the loop; it goes on with \<open>join_resume\<close>.
\<close>

partial_function (option) join_loop :: "sched \<Rightarrow> addr \<Rightarrow> addr option \<Rightarrow> int outcome option" where
  "join_loop s t status =
     (if state (heap s t) = GTTHREAD_RUNNING then
        (case sigvtalrm_handler (sigprocmask_unblock s) of
           Return u s' \<Rightarrow> join_loop (sigprocmask_block s') t status
         | NoReturn x \<Rightarrow> Some (NoReturn x))
      else Some (join_finish s t status))"

definition join_resume :: "sched \<Rightarrow> addr \<Rightarrow> addr option \<Rightarrow> int outcome option" where
  "join_resume s t status = join_loop (sigprocmask_block s) t status"

definition gtthread_join :: "sched \<Rightarrow> gtthread_t \<Rightarrow> addr option \<Rightarrow> int outcome option" where
  "gtthread_join s thread status =
     (if thread = tid (heap s (current s)) then Some (Return (- 1) s)
      else
        (case thread_get s thread of
           None \<Rightarrow> Some (Return (- 1) s)
         | Some t \<Rightarrow>
            (if joining (heap s t) = tid (heap s (current s)) then Some (Return (- 1) s)
             else
               (let s1 = s\<lparr>heap := (heap s)(current s :=
                           (heap s (current s))\<lparr>joining := tid (heap s t)\<rparr>)\<rparr>
                in join_loop s1 t status))))"

subsection \<open>gtthread\_equal, gtthread\_self, gtthread\_cancel, gtthread\_start\<close>

definition gtthread_equal :: "gtthread_t \<Rightarrow> gtthread_t \<Rightarrow> int" where
  "gtthread_equal t1 t2 = (if t1 = t2 then 1 else 0)"


definition gtthread_cancel :: "sched \<Rightarrow> gtthread_t \<Rightarrow> int outcome" where
  "gtthread_cancel s0 thread =
     (if gtthread_equal (tid (heap s0 (current s0))) thread \<noteq> 0
      then NoReturn (gtthread_exit s0 0)
      else
        (let s = sigprocmask_block s0
         in case thread_get s thread of
              None \<Rightarrow> Return (- 1) (sigprocmask_unblock s)
            | Some t \<Rightarrow>
               (if state (heap s t) = GTTHREAD_DONE then Return (- 1) (sigprocmask_unblock s)
                else if state (heap s t) = GTTHREAD_CANCEL then Return (- 1) (sigprocmask_unblock s)
                else
                  (let s1 = s\<lparr>heap := (heap s)(t := (heap s t)\<lparr>state := GTTHREAD_CANCEL\<rparr>)\<rparr>
                   in case ucp (heap s1 t) of
                        None \<Rightarrow> NoReturn (Fault Null_context)
                      | Some c \<Rightarrow>
                         (let s2 = s1\<lparr>heap := (heap s1)(t := (heap s1 t)\<lparr>ucp := None\<rparr>)\<rparr>;
                              s3 = s2\<lparr>heap := (heap s2)(t := (heap s2 t)\<lparr>joining := 0\<rparr>)\<rparr>;
                              s4 = s3\<lparr>zombie_queue := steque_enqueue (zombie_queue s3) t\<rparr>
                          in Return 0 (sigprocmask_unblock s4))))))"

text \<open>
  \<open>gtthread_start\<close>, the entry of every created context, in its two parts:
  before the start routine runs, and after it has returned \<open>r\<close>.
\<close>

definition gtthread_start_enter :: "sched \<Rightarrow> sched" where
  "gtthread_start_enter s = sigprocmask_unblock s"

definition gtthread_start_finish :: "sched \<Rightarrow> voidp \<Rightarrow> transfer" where
  "gtthread_start_finish s r =
     (let s1 = s\<lparr>heap := (heap s)(current s := (heap s (current s))\<lparr>retval := r\<rparr>)\<rparr>
      in gtthread_exit s1 (retval (heap s1 (current s1))))"

subsection \<open>One call after the other\<close>

text \<open>
  The state in which the program goes on after a call: the one the call
  returned in, or the one it switched to or installed. A call that ends the
  process or runs into a fault has none: a run stops at the first call that
  hands a \<open>NULL\<close> context to \<open>swapcontext\<close> or \<open>setcontext\<close> or pops the
  empty ready queue. The source tests neither result; what a host does there
  (a trap, or a failed \<open>swapcontext\<close> after which the caller goes on with
  \<open>current\<close> already changed) is outside this development.
\<close>

definition lands :: "transfer \<Rightarrow> sched option" where
  "lands x = (case x of Switch s \<Rightarrow> Some s | Install s \<Rightarrow> Some s
              | Exit e \<Rightarrow> None | Fault f \<Rightarrow> None)"

definition continues :: "'r outcome \<Rightarrow> sched option" where
  "continues y = (case y of Return r s \<Rightarrow> Some s | NoReturn x \<Rightarrow> lands x)"

text \<open>
  One step of a program that uses the library: a call of the interface, the
  handler run by the timer signal, a suspended call going on after its context
  was installed again, the two halves of \<open>gtthread_start\<close>, a store of the
  program into its own memory, or the kernel restoring the signal mask when a
  signal handler returns. The steps are taken one at a time: a signal that
  arrives inside a call, in the part that runs with the signal unblocked, is
  not modelled.
\<close>

inductive step :: "sched \<Rightarrow> sched \<Rightarrow> bool" where
  step_create: "continues (gtthread_create s p f a hst) = Some s' \<Longrightarrow> step s s'"
| step_join: "gtthread_join s i status = Some y \<Longrightarrow> continues y = Some s' \<Longrightarrow> step s s'"
| step_join_resume: "join_resume s t status = Some y \<Longrightarrow> continues y = Some s' \<Longrightarrow> step s s'"
| step_exit: "lands (gtthread_exit s rv) = Some s' \<Longrightarrow> step s s'"
| step_exit_resume: "lands (exit_main_resume s rv) = Some s' \<Longrightarrow> step s s'"
| step_yield: "continues (gtthread_yield s) = Some s' \<Longrightarrow> step s s'"
| step_cancel: "continues (gtthread_cancel s i) = Some s' \<Longrightarrow> step s s'"
| step_handler: "continues (sigvtalrm_handler s) = Some s' \<Longrightarrow> step s s'"
| step_start_enter: "step s (gtthread_start_enter s)"
| step_start_finish: "lands (gtthread_start_finish s r) = Some s' \<Longrightarrow> step s s'"
| step_store: "step s (s\<lparr>mem := m\<rparr>)"
| step_sigreturn: "step s (s\<lparr>blocked := b\<rparr>)"

text \<open>
  The states of a program that called \<open>gtthread_init\<close> once, at its start,
  as long as no call has run into a fault.
\<close>

inductive reachable :: "sched \<Rightarrow> bool" where
  reach_init: "gtthread_init period hst (program_start h m) = Return () s \<Longrightarrow> reachable s"
| reach_step: "reachable s \<Longrightarrow> step s s' \<Longrightarrow> reachable s'"

subsection \<open>Example states\<close>

text \<open>A store of zeroed descriptors, host primitives that succeed, and the start of a program on them.\<close>

definition blank :: thread_t where
  "blank = \<lparr>tid = 0, joining = 0, state = GTTHREAD_RUNNING, proc = 0, arg = 0,
            retval = 0, ucp = None\<rparr>"

definition host_ok :: host where
  "host_ok = \<lparr>getcontext_ret = 0, setitimer_ret = 0, sigaction_ret = 0\<rparr>"

definition boot :: sched where
  "boot = program_start (\<lambda>a. blank) (\<lambda>p. 0)"

text \<open>
  The descriptors of the main thread (at address 1) and of two created threads
  A (at address 2, identity 2) and B (at address 4, identity 3), as
  \<open>gtthread_init\<close> and \<open>gtthread_create\<close> leave them.
\<close>

definition desc_main :: thread_t where
  "desc_main = \<lparr>tid = 1, joining = 0, state = GTTHREAD_RUNNING, proc = 0, arg = 0,
                retval = 0, ucp = Some zero_context\<rparr>"

definition desc_A :: thread_t where
  "desc_A = \<lparr>tid = 2, joining = 0, state = GTTHREAD_RUNNING, proc = 7, arg = 41,
             retval = 0, ucp = Some \<lparr>ss_sp = 3, uc_link = 0, uc_entry = Some (7, 41)\<rparr>\<rparr>"

definition desc_B :: thread_t where
  "desc_B = \<lparr>tid = 3, joining = 0, state = GTTHREAD_RUNNING, proc = 8, arg = 42,
             retval = 0, ucp = Some \<lparr>ss_sp = 5, uc_link = 0, uc_entry = Some (8, 42)\<rparr>\<rparr>"

text \<open>After \<open>gtthread_init(50000)\<close>.\<close>

definition st_init :: sched where
  "st_init = \<lparr>ready_queue = [], zombie_queue = [], current = 1, maxtid = 2,
     blocked = False, timer = Some 50000, handler_set = True,
     heap = (\<lambda>a. blank)(1 := desc_main), brk = 2, mem = (\<lambda>p. 0)\<rparr>"

text \<open>Then the main thread creates A.\<close>

definition st_one :: sched where
  "st_one = \<lparr>ready_queue = [2], zombie_queue = [], current = 1, maxtid = 3,
     blocked = False, timer = Some 50000, handler_set = True,
     heap = (\<lambda>a. blank)(1 := desc_main, 2 := desc_A), brk = 4,
     mem = (\<lambda>p. 0)(100 := 2)\<rparr>"

text \<open>Then the main thread cancels A.\<close>

definition st_cancelled :: sched where
  "st_cancelled = st_one\<lparr>zombie_queue := [2],
     heap := (heap st_one)(2 := desc_A\<lparr>state := GTTHREAD_CANCEL, ucp := None\<rparr>)\<rparr>"

text \<open>From \<open>st_one\<close>, the main thread creates B instead.\<close>

definition st_two :: sched where
  "st_two = \<lparr>ready_queue = [2, 4], zombie_queue = [], current = 1, maxtid = 4,
     blocked = False, timer = Some 50000, handler_set = True,
     heap = (\<lambda>a. blank)(1 := desc_main, 2 := desc_A, 4 := desc_B), brk = 6,
     mem = (\<lambda>p. 0)(100 := 2, 101 := 3)\<rparr>"

text \<open>Then the main thread yields, and A runs.\<close>

definition st_A :: sched where
  "st_A = st_two\<lparr>ready_queue := [4, 1], current := 2\<rparr>"

text \<open>From \<open>st_A\<close>, A cancels B, which is at the head of the ready queue.\<close>

definition st_A_cancelled_B :: sched where
  "st_A_cancelled_B = st_A\<lparr>zombie_queue := [4],
     heap := (heap st_A)(4 := desc_B\<lparr>state := GTTHREAD_CANCEL, ucp := None\<rparr>)\<rparr>"

text \<open>From \<open>st_A\<close>, A joins B instead: B is RUNNING, the loop switches to B.\<close>

definition st_B_joined :: sched where
  "st_B_joined = st_A\<lparr>ready_queue := [1, 2], current := 4,
     heap := (heap st_A)(2 := desc_A\<lparr>joining := 3\<rparr>)\<rparr>"

text \<open>From \<open>st_B_joined\<close>, B cancels A, which is waiting for B.\<close>

definition st_B_cancelled_A :: sched where
  "st_B_cancelled_A = st_B_joined\<lparr>zombie_queue := [2],
     heap := (heap st_B_joined)(2 := desc_A\<lparr>state := GTTHREAD_CANCEL, ucp := None\<rparr>)\<rparr>"

text \<open>
  From \<open>st_A\<close>, A cancels the main thread; A yields to B; the timer fires, the
  handler drops the main thread from the ready queue and switches to A; A
  exits with 42, and B is the only thread left.
\<close>

definition st_A_cancelled_main :: sched where
  "st_A_cancelled_main = st_A\<lparr>zombie_queue := [1],
     heap := (heap st_A)(1 := desc_main\<lparr>state := GTTHREAD_CANCEL, ucp := None\<rparr>)\<rparr>"

definition st_B_turn :: sched where
  "st_B_turn = st_A_cancelled_main\<lparr>ready_queue := [1, 2], current := 4\<rparr>"

definition st_A_turn :: sched where
  "st_A_turn = st_B_turn\<lparr>ready_queue := [4], zombie_queue := [1, 1], current := 2\<rparr>"

definition st_B_last :: sched where
  "st_B_last = st_A_turn\<lparr>ready_queue := [], zombie_queue := [1, 1, 2], current := 4,
     heap := (heap st_A_turn)(2 := desc_A\<lparr>ucp := None, state := GTTHREAD_DONE, retval := 42\<rparr>)\<rparr>"

text \<open>From \<open>st_cancelled\<close>, the main thread joins the cancelled A, with the result to go to address 200.\<close>

definition st_main_joined :: sched where
  "st_main_joined = st_cancelled\<lparr>
     heap := (heap st_cancelled)(1 := desc_main\<lparr>joining := 2\<rparr>),
     mem := (mem st_cancelled)(200 := 1)\<rparr>"

text \<open>From \<open>st_B_last\<close>, B joins A, which has exited with 42.\<close>

definition st_B_joined_done :: sched where
  "st_B_joined_done = st_B_last\<lparr>
     heap := (heap st_B_last)(4 := desc_B\<lparr>joining := 2\<rparr>),
     mem := (mem st_B_last)(200 := 42)\<rparr>"







subsection \<open>Predicates of the statements\<close>

text \<open>
  The three cases in which \<open>gtthread_join\<close> is to fail: the target is the
  caller, no descriptor of the ready or the zombie queue has the identity, or
  the descriptor \<open>thread_get\<close> finds is joining the caller.
\<close>

definition join_rejected :: "sched \<Rightarrow> gtthread_t \<Rightarrow> bool" where
  "join_rejected s thread =
     (thread = tid (heap s (current s))
      \<or> (\<forall>a \<in> set (ready_queue s) \<union> set (zombie_queue s). tid (heap s a) \<noteq> thread)
      \<or> (\<exists>t. thread_get s thread = Some t \<and> joining (heap s t) = tid (heap s (current s))))"

text \<open>The descriptors the scheduler knows: the running one and those of the two queues.\<close>

definition descs :: "sched \<Rightarrow> addr set" where
  "descs s = insert (current s) (set (ready_queue s) \<union> set (zombie_queue s))"

text \<open>
  What holds of the queues between two steps: the running descriptor is in
  neither queue and is RUNNING; the ready queue holds no descriptor twice; a
  descriptor of the zombie queue is not RUNNING and has no context; a descriptor
  of the ready queue is not DONE, and a cancelled one is in the zombie queue as
  well; the identities are positive, below the counter, and pairwise different;
  and every descriptor was allocated.
\<close>

definition sched_inv :: "sched \<Rightarrow> bool" where
  "sched_inv s =
     (current s \<notin> set (ready_queue s) \<and> current s \<notin> set (zombie_queue s)
      \<and> distinct (ready_queue s)
      \<and> state (heap s (current s)) = GTTHREAD_RUNNING
      \<and> (\<forall>a \<in> set (zombie_queue s).
            state (heap s a) \<noteq> GTTHREAD_RUNNING \<and> ucp (heap s a) = None)
      \<and> (\<forall>a \<in> set (ready_queue s).
            state (heap s a) \<noteq> GTTHREAD_DONE
            \<and> (state (heap s a) = GTTHREAD_CANCEL \<longrightarrow> a \<in> set (zombie_queue s)))
      \<and> (\<forall>a \<in> descs s. 0 < tid (heap s a) \<and> tid (heap s a) < maxtid s \<and> a < brk s)
      \<and> (\<forall>a \<in> descs s. \<forall>b \<in> descs s. tid (heap s a) = tid (heap s b) \<longrightarrow> a = b))"


text \<open>
  Two states with the same identity counter, the same descriptors and the same
  identity in each of them.
\<close>

definition same_ids :: "sched \<Rightarrow> sched \<Rightarrow> bool" where
  "same_ids s s' = (maxtid s' = maxtid s \<and> descs s' = descs s
     \<and> (\<forall>a. tid (heap s' a) = tid (heap s a)))"

text \<open>
  What \<open>gtthread_join\<close> writes for a target that is no longer RUNNING: the
  value of \<open>(void*) GTTHREAD_CANCEL\<close> for a cancelled one, the stored return
  value otherwise.
\<close>

definition join_value :: "sched \<Rightarrow> addr \<Rightarrow> voidp" where
  "join_value s t = (if state (heap s t) = GTTHREAD_CANCEL then state_code GTTHREAD_CANCEL
                     else retval (heap s t))"

text \<open>
  A descriptor whose \<open>state\<close> and context pointer are the same in two
  states, and whose \<open>joining\<close> is the same or not 0 in the second.
\<close>

definition kept :: "sched \<Rightarrow> sched \<Rightarrow> addr \<Rightarrow> bool" where
  "kept s s' a = (state (heap s' a) = state (heap s a) \<and> ucp (heap s' a) = ucp (heap s a)
     \<and> (joining (heap s' a) = joining (heap s a) \<or> joining (heap s' a) \<noteq> 0))"

text \<open>Every descriptor that is RUNNING has a context.\<close>

definition ctx_inv :: "sched \<Rightarrow> bool" where
  "ctx_inv s = (\<forall>a \<in> descs s. state (heap s a) = GTTHREAD_RUNNING \<longrightarrow> ucp (heap s a) \<noteq> None)"

text \<open>
  The two steps that end a thread: the running thread goes through
  \<open>gtthread_exit\<close> (called by the program, by \<open>gtthread_cancel\<close> of the caller
  itself, or by \<open>gtthread_start\<close>) and the next one is installed; or \<open>gtthread_cancel\<close> returns 0 for a RUNNING target
  other than the caller. All other descriptors are kept.
\<close>

definition exit_effect :: "sched \<Rightarrow> sched \<Rightarrow> bool" where
  "exit_effect s s' = (((\<exists>rv. gtthread_exit s rv = Install s')
        \<or> (\<exists>r. gtthread_start_finish s r = Install s'))
     \<and> (\<forall>a. a \<noteq> current s \<longrightarrow> kept s s' a)
     \<and> state (heap s' (current s)) = GTTHREAD_DONE \<and> ucp (heap s' (current s)) = None)"

definition cancel_effect :: "sched \<Rightarrow> sched \<Rightarrow> bool" where
  "cancel_effect s s' = (\<exists>i t. gtthread_cancel s i = Return 0 s' \<and> thread_get s i = Some t
     \<and> t \<noteq> current s \<and> state (heap s t) = GTTHREAD_RUNNING
     \<and> (\<forall>a. a \<noteq> t \<longrightarrow> kept s s' a)
     \<and> state (heap s' t) = GTTHREAD_CANCEL \<and> ucp (heap s' t) = None)"

section \<open>Properties\<close>

subsection \<open>Basic facts\<close>

lemmas run_defs =
  handler_skip.simps exit_main_loop.simps gtthread_init_def gtthread_create_def gtthread_cancel_def gtthread_yield_def
  gtthread_exit_def sigvtalrm_handler_def gtthread_join_def Let_def malloc_def steque_init_def
  steque_isempty_def steque_enqueue_def steque_pop_def sigprocmask_block_def
  sigprocmask_unblock_def zero_context_def thread_get_def gtthread_equal_def
  swapcontext_def setcontext_def

lemmas st_defs =
  blank_def host_ok_def boot_def program_start_def desc_main_def desc_A_def desc_B_def
  st_init_def st_one_def st_cancelled_def st_two_def st_A_def st_A_cancelled_B_def
  st_B_joined_def st_B_cancelled_A_def st_A_cancelled_main_def st_B_turn_def st_A_turn_def st_B_last_def st_main_joined_def st_B_joined_done_def

lemma block_simps [simp]:
  "ready_queue (sigprocmask_block s) = ready_queue s"
  "zombie_queue (sigprocmask_block s) = zombie_queue s"
  "current (sigprocmask_block s) = current s"
  "maxtid (sigprocmask_block s) = maxtid s"
  "heap (sigprocmask_block s) = heap s"
  "brk (sigprocmask_block s) = brk s"
  "mem (sigprocmask_block s) = mem s"
  "blocked (sigprocmask_block s) = True"
  by (simp_all add: sigprocmask_block_def)

lemma unblock_simps [simp]:
  "ready_queue (sigprocmask_unblock s) = ready_queue s"
  "zombie_queue (sigprocmask_unblock s) = zombie_queue s"
  "current (sigprocmask_unblock s) = current s"
  "maxtid (sigprocmask_unblock s) = maxtid s"
  "heap (sigprocmask_unblock s) = heap s"
  "brk (sigprocmask_unblock s) = brk s"
  "mem (sigprocmask_unblock s) = mem s"
  "blocked (sigprocmask_unblock s) = False"
  by (simp_all add: sigprocmask_unblock_def)

lemma scan_None_iff: "scan h i q = None \<longleftrightarrow> (\<forall>a \<in> set q. tid (h a) \<noteq> i)"
  by (induction q) auto

lemma scan_Some: "scan h i q = Some t \<Longrightarrow> t \<in> set q \<and> tid (h t) = i"
  by (induction q) (auto split: if_splits)

lemma thread_get_None_iff:
  "thread_get s i = None \<longleftrightarrow>
   (\<forall>a \<in> set (ready_queue s) \<union> set (zombie_queue s). tid (heap s a) \<noteq> i)"
  by (auto simp: thread_get_def scan_None_iff split: option.splits dest: scan_Some)

lemma thread_get_Some:
  "thread_get s i = Some t \<Longrightarrow>
   t \<in> set (ready_queue s) \<union> set (zombie_queue s) \<and> tid (heap s t) = i"
  by (auto simp: thread_get_def split: option.splits dest: scan_Some)

text \<open>The handler returns to its caller at once only when the ready queue is empty, and then with the signal blocked.\<close>

lemma handler_Return:
  "sigvtalrm_handler s = Return u s' \<Longrightarrow> ready_queue s = [] \<and> s' = sigprocmask_block s"
  by (auto simp: sigvtalrm_handler_def Let_def steque_isempty_def
      split: if_splits option.splits sum.splits prod.splits)

lemma handler_empty:
  "ready_queue s = [] \<Longrightarrow> sigvtalrm_handler s = Return () (sigprocmask_block s)"
  by (simp add: sigvtalrm_handler_def Let_def steque_isempty_def)

subsection \<open>The waiting loop of gtthread\_join\<close>

text \<open>
  Whenever the loop gets anywhere, it either found the target no longer
  RUNNING and finished, or the handler call of its first round left the caller.
\<close>

lemma join_loop_Some:
  assumes "join_loop s t status = Some y"
  shows "if state (heap s t) = GTTHREAD_RUNNING
         then \<exists>x. sigvtalrm_handler (sigprocmask_unblock s) = NoReturn x \<and> y = NoReturn x
         else y = join_finish s t status"
  using assms
proof (induction rule: join_loop.raw_induct [rotated 1, consumes 1])
  case (1 join_loop s t status y)
  show ?case
  proof (cases "state (heap s t) = GTTHREAD_RUNNING")
    case False
    with 1(2) show ?thesis by simp
  next
    case True
    show ?thesis
    proof (cases "sigvtalrm_handler (sigprocmask_unblock s)")
      case (Return u s1)
      with True 1(2) have "join_loop (sigprocmask_block s1) t status = Some y"
        by simp
      from 1(1) [OF this] handler_Return [OF Return] True
      have "\<exists>x. sigvtalrm_handler (sigprocmask_unblock (sigprocmask_block s1)) = NoReturn x"
        by auto
      moreover from handler_Return [OF Return]
      have "sigvtalrm_handler (sigprocmask_unblock (sigprocmask_block s1))
            = Return () (sigprocmask_block (sigprocmask_unblock (sigprocmask_block s1)))"
        by (simp add: handler_empty)
      ultimately show ?thesis by simp
    next
      case (NoReturn x)
      with True 1(2) show ?thesis by simp
    qed
  qed
qed

lemma join_loop_Return:
  assumes "join_loop s t status = Some (Return r s')"
  shows "state (heap s t) \<noteq> GTTHREAD_RUNNING \<and> join_finish s t status = Return r s'"
  using join_loop_Some [OF assms] by (auto split: if_splits)

lemma join_loop_terminal:
  "state (heap s t) \<noteq> GTTHREAD_RUNNING \<Longrightarrow> join_loop s t status = Some (join_finish s t status)"
  by (subst join_loop.simps) simp

text \<open>With the target RUNNING and nobody to switch to, the loop spins for ever.\<close>

lemma join_loop_spins:
  assumes "state (heap s t) = GTTHREAD_RUNNING" and "ready_queue s = []"
  shows "join_loop s t status = None"
proof (cases "join_loop s t status")
  case None
  then show ?thesis .
next
  case (Some y)
  from join_loop_Some [OF Some] assms(1)
  obtain x where "sigvtalrm_handler (sigprocmask_unblock s) = NoReturn x" by auto
  with assms(2) show ?thesis by (simp add: handler_empty)
qed

lemma join_finish_code: "join_finish s t status = Return r s' \<Longrightarrow> r = 0"
  by (auto simp: join_finish_def split: option.splits if_splits)

subsection \<open>Failure of gtthread\_join\<close>

lemma join_rejected_fails:
  assumes "join_rejected s thread"
  shows "gtthread_join s thread status = Some (Return (- 1) s)"
  using assms
  by (auto simp: join_rejected_def gtthread_join_def thread_get_None_iff [symmetric]
      simp del: Un_iff split: option.splits)

lemma join_negative_rejected:
  assumes "gtthread_join s thread status = Some (Return r s')" and "r < 0"
  shows "join_rejected s thread"
proof (rule ccontr)
  assume n: "\<not> join_rejected s thread"
  then obtain t where t: "thread_get s thread = Some t"
    by (auto simp: join_rejected_def thread_get_None_iff [symmetric] simp del: Un_iff)
  with n assms(1) obtain s1 where "join_loop s1 t status = Some (Return r s')"
    by (auto simp: join_rejected_def gtthread_join_def Let_def split: if_splits)
  from join_loop_Return [OF this] have "r = 0" by (auto dest: join_finish_code)
  with assms(2) show False by simp
qed

text \<open>
  C6. \<open>gtthread_join\<close> returns a negative code exactly in the three cases of
  \<open>join_rejected\<close>: self-join, an identity that no descriptor of the ready
  or the zombie queue has, and a target that is joining the caller. In each of
  them it returns -1 and the scheduler state is the one it was called in.
\<close>

theorem gtthread_join_failure:
  "((\<exists>r s'. gtthread_join s thread status = Some (Return r s') \<and> r < 0) = join_rejected s thread)
   \<and> (join_rejected s thread \<longrightarrow> gtthread_join s thread status = Some (Return (- 1) s))"
proof -
  have "\<exists>r s'. gtthread_join s thread status = Some (Return r s') \<and> r < 0"
    if "join_rejected s thread"
    using join_rejected_fails [OF that, of status] by (intro exI [of _ "- 1"] exI [of _ s]) simp
  with join_negative_rejected [of s thread status] join_rejected_fails [of s thread status]
  show ?thesis by blast
qed

subsection \<open>The example states, call by call\<close>

lemma run_init: "gtthread_init 50000 host_ok boot = Return () st_init"
  by (simp add: run_defs st_defs)

lemma run_create_A: "gtthread_create st_init 100 7 41 host_ok = Return 0 st_one"
  by (simp add: run_defs st_defs fun_eq_iff)

lemma run_cancel_A: "gtthread_cancel st_one 2 = Return 0 st_cancelled"
  by (simp add: run_defs st_defs fun_eq_iff)

lemma run_create_B: "gtthread_create st_one 101 8 42 host_ok = Return 0 st_two"
  by (simp add: run_defs st_defs fun_eq_iff)

lemma run_yield_main: "gtthread_yield st_two = NoReturn (Switch st_A)"
  by (simp add: run_defs st_defs fun_eq_iff)


lemma run_A_joins_B: "gtthread_join st_A 3 None = Some (NoReturn (Switch st_B_joined))"
  by (subst gtthread_join_def, subst join_loop.simps) (simp add: run_defs st_defs fun_eq_iff)

lemma run_A_cancels_main: "gtthread_cancel st_A 1 = Return 0 st_A_cancelled_main"
  by (simp add: run_defs st_defs fun_eq_iff)

lemma run_A_yields: "gtthread_yield st_A_cancelled_main = NoReturn (Switch st_B_turn)"
  by (simp add: run_defs st_defs fun_eq_iff)

lemma run_timer: "sigvtalrm_handler st_B_turn = NoReturn (Switch st_A_turn)"
  by (simp add: run_defs st_defs fun_eq_iff)

lemma run_A_exits: "gtthread_exit st_A_turn 42 = Install st_B_last"
  by (simp add: run_defs st_defs fun_eq_iff)

subsection \<open>What the handler does when it switches\<close>

text \<open>
  The loop of the handler stops at the first descriptor that is not cancelled;
  the cancelled ones before it went to the zombie queue, in their order.
\<close>

lemma handler_skip_Inr:
  "handler_skip s n = Inr (nxt, s1) \<Longrightarrow>
   (\<exists>pre. n # ready_queue s = pre @ nxt # ready_queue s1
     \<and> zombie_queue s1 = zombie_queue s @ pre
     \<and> (\<forall>a \<in> set pre. state (heap s a) = GTTHREAD_CANCEL))
   \<and> state (heap s nxt) \<noteq> GTTHREAD_CANCEL
   \<and> current s1 = current s \<and> heap s1 = heap s \<and> maxtid s1 = maxtid s
   \<and> brk s1 = brk s \<and> mem s1 = mem s \<and> blocked s1 = blocked s"
proof (induction s n rule: handler_skip.induct)
  case (1 s n)
  show ?case
  proof (cases "state (heap s n) = GTTHREAD_CANCEL")
    case False
    with "1.prems" have "nxt = n" "s1 = s" by (auto simp: handler_skip.simps [of s n])
    with False show ?thesis by simp
  next
    case True
    let ?s1 = "s\<lparr>zombie_queue := steque_enqueue (zombie_queue s) n\<rparr>"
    from True "1.prems" obtain m q where
      pop: "steque_pop (ready_queue ?s1) = Some (m, q)"
      and rec: "handler_skip (?s1\<lparr>ready_queue := q\<rparr>) m = Inr (nxt, s1)"
      by (auto simp: handler_skip.simps [of s n] Let_def split: option.splits)
    from pop have rq: "ready_queue s = m # q"
      by (auto simp: steque_pop_def split: list.splits)
    note ih = "1.IH" [OF True refl pop refl rec]
    from ih obtain pre where pre: "m # q = pre @ nxt # ready_queue s1"
      "zombie_queue s1 = (zombie_queue s @ [n]) @ pre"
      "\<forall>a \<in> set pre. state (heap s a) = GTTHREAD_CANCEL"
      by (auto simp: steque_enqueue_def)
    have "n # ready_queue s = (n # pre) @ nxt # ready_queue s1
      \<and> zombie_queue s1 = zombie_queue s @ (n # pre)
      \<and> (\<forall>a \<in> set (n # pre). state (heap s a) = GTTHREAD_CANCEL)"
      using pre rq True by simp
    then have "\<exists>pre. n # ready_queue s = pre @ nxt # ready_queue s1
      \<and> zombie_queue s1 = zombie_queue s @ pre
      \<and> (\<forall>a \<in> set pre. state (heap s a) = GTTHREAD_CANCEL)" by blast
    with ih show ?thesis by simp
  qed
qed

text \<open>
  A handler call that switches has popped a run of cancelled descriptors into
  the zombie queue, made the first other descriptor \<open>current\<close> and RUNNING,
  and put the old \<open>current\<close> at the tail of the ready queue.
\<close>

lemma handler_Switch:
  assumes "sigvtalrm_handler s = NoReturn (Switch s')"
  shows "\<exists>pre nxt rest. ready_queue s = pre @ nxt # rest
     \<and> (\<forall>a \<in> set pre. state (heap s a) = GTTHREAD_CANCEL)
     \<and> state (heap s nxt) \<noteq> GTTHREAD_CANCEL
     \<and> ready_queue s' = rest @ [current s]
     \<and> zombie_queue s' = zombie_queue s @ pre
     \<and> current s' = nxt
     \<and> heap s' = (heap s)(nxt := (heap s nxt)\<lparr>state := GTTHREAD_RUNNING\<rparr>)
     \<and> maxtid s' = maxtid s \<and> brk s' = brk s \<and> mem s' = mem s \<and> blocked s' = False
     \<and> ucp (heap s' nxt) \<noteq> None \<and> ucp (heap s' (current s)) \<noteq> None"
proof -
  let ?s = "sigprocmask_block s"
  from assms have ne: "ready_queue s \<noteq> []"
    by (auto simp: handler_empty)
  then obtain n q where rq: "ready_queue s = n # q" by (cases "ready_queue s") auto
  then have pop: "steque_pop (ready_queue ?s) = Some (n, q)"
    by (simp add: steque_pop_def)
  from assms ne pop obtain nxt s1 where
    skip: "handler_skip (?s\<lparr>ready_queue := q\<rparr>) n = Inr (nxt, s1)"
    by (cases "handler_skip (?s\<lparr>ready_queue := q\<rparr>) n")
       (auto simp: sigvtalrm_handler_def Let_def steque_isempty_def)
  let ?s5 = "sigprocmask_unblock (s1\<lparr>ready_queue := steque_enqueue (ready_queue s1) (current s1),
         heap := (heap s1)(nxt := (heap s1 nxt)\<lparr>state := GTTHREAD_RUNNING\<rparr>), current := nxt\<rparr>)"
  from assms ne pop skip have sw: "swapcontext ?s5 (current s1) (current ?s5) = Switch s'"
    by (simp add: sigvtalrm_handler_def Let_def steque_isempty_def)
  from handler_skip_Inr [OF skip] obtain pre where pre:
    "n # q = pre @ nxt # ready_queue s1" "zombie_queue s1 = zombie_queue s @ pre"
    "\<forall>a \<in> set pre. state (heap s a) = GTTHREAD_CANCEL" "state (heap s nxt) \<noteq> GTTHREAD_CANCEL"
    and s1: "current s1 = current s" "heap s1 = heap s" "maxtid s1 = maxtid s"
    "brk s1 = brk s" "mem s1 = mem s"
    by auto
  from sw have s': "s' = ?s5"
    and u: "ucp (heap ?s5 (current s1)) \<noteq> None" "ucp (heap ?s5 (current ?s5)) \<noteq> None"
    by (auto simp: swapcontext_def split: option.splits)
  have "ready_queue s = pre @ nxt # ready_queue s1
     \<and> (\<forall>a \<in> set pre. state (heap s a) = GTTHREAD_CANCEL)
     \<and> state (heap s nxt) \<noteq> GTTHREAD_CANCEL
     \<and> ready_queue s' = ready_queue s1 @ [current s]
     \<and> zombie_queue s' = zombie_queue s @ pre
     \<and> current s' = nxt
     \<and> heap s' = (heap s)(nxt := (heap s nxt)\<lparr>state := GTTHREAD_RUNNING\<rparr>)
     \<and> maxtid s' = maxtid s \<and> brk s' = brk s \<and> mem s' = mem s \<and> blocked s' = False
     \<and> ucp (heap s' nxt) \<noteq> None \<and> ucp (heap s' (current s)) \<noteq> None"
    using pre rq s1 u unfolding s' by (simp add: steque_enqueue_def)
  then show ?thesis by blast
qed


subsection \<open>The invariant\<close>

lemma sched_inv_cong:
  assumes "ready_queue s' = ready_queue s" and "zombie_queue s' = zombie_queue s"
    and "current s' = current s" and "maxtid s' = maxtid s" and "brk s' = brk s"
    and "\<And>a. tid (heap s' a) = tid (heap s a)"
    and "\<And>a. state (heap s' a) = state (heap s a)"
    and "\<And>a. ucp (heap s' a) = ucp (heap s a)"
  shows "sched_inv s' = sched_inv s"
  unfolding sched_inv_def descs_def assms ..

lemma sched_inv_block [simp]: "sched_inv (sigprocmask_block s) = sched_inv s"
  by (rule sched_inv_cong) simp_all

lemma sched_inv_unblock [simp]: "sched_inv (sigprocmask_unblock s) = sched_inv s"
  by (rule sched_inv_cong) simp_all

lemma sched_inv_mem [simp]: "sched_inv (s\<lparr>mem := m\<rparr>) = sched_inv s"
  by (rule sched_inv_cong) simp_all

lemma sched_inv_blocked [simp]: "sched_inv (s\<lparr>blocked := b\<rparr>) = sched_inv s"
  by (rule sched_inv_cong) simp_all

lemma sched_inv_joining [simp]:
  "sched_inv (s\<lparr>heap := (heap s)(c := (heap s c)\<lparr>joining := j\<rparr>)\<rparr>) = sched_inv s"
  by (rule sched_inv_cong) simp_all

lemma sched_inv_retval [simp]:
  "sched_inv (s\<lparr>heap := (heap s)(c := (heap s c)\<lparr>retval := j\<rparr>)\<rparr>) = sched_inv s"
  by (rule sched_inv_cong) simp_all

lemma init_inv:
  "gtthread_init period hst (program_start h m) = Return u s \<Longrightarrow> sched_inv s"
  by (auto simp: gtthread_init_def program_start_def malloc_def steque_init_def Let_def
      sigprocmask_unblock_def sched_inv_def descs_def split: if_splits)

lemma handler_inv:
  assumes inv: "sched_inv s" and sw: "sigvtalrm_handler s = NoReturn (Switch s')"
  shows "sched_inv s'"
proof -
  from handler_Switch [OF sw] obtain pre nxt rest where
    rq: "ready_queue s = pre @ nxt # rest"
    and pre: "\<forall>a \<in> set pre. state (heap s a) = GTTHREAD_CANCEL"
    and nc: "state (heap s nxt) \<noteq> GTTHREAD_CANCEL"
    and s': "ready_queue s' = rest @ [current s]" "zombie_queue s' = zombie_queue s @ pre"
      "current s' = nxt" "heap s' = (heap s)(nxt := (heap s nxt)\<lparr>state := GTTHREAD_RUNNING\<rparr>)"
      "maxtid s' = maxtid s" "brk s' = brk s"
    by blast
  from inv rq nc have nz: "nxt \<notin> set (zombie_queue s)"
    by (cases "state (heap s nxt)") (auto simp: sched_inv_def)
  have d: "descs s' = descs s"
    using rq s' inv by (auto simp: descs_def sched_inv_def)
  have t: "\<And>a. tid (heap s' a) = tid (heap s a)" "\<And>a. ucp (heap s' a) = ucp (heap s a)"
    "\<And>a. a \<noteq> nxt \<Longrightarrow> state (heap s' a) = state (heap s a)"
    "state (heap s' nxt) = GTTHREAD_RUNNING"
    by (simp_all add: s')
  have c1: "current s' \<notin> set (ready_queue s')" "current s' \<notin> set (zombie_queue s')"
    "distinct (ready_queue s')"
    using inv rq nz by (auto simp: s'(1-3) sched_inv_def)
  have c2: "\<forall>a \<in> set (zombie_queue s'). state (heap s' a) \<noteq> GTTHREAD_RUNNING \<and> ucp (heap s' a) = None"
  proof
    fix a assume a: "a \<in> set (zombie_queue s')"
    with c1(2) have "a \<noteq> nxt" by (auto simp: s'(3))
    moreover from a have "a \<in> set (zombie_queue s) \<or> a \<in> set pre" by (auto simp: s'(2))
    moreover have "a \<in> set (zombie_queue s)" if "a \<in> set pre"
      using that pre inv rq by (auto simp: sched_inv_def)
    ultimately show "state (heap s' a) \<noteq> GTTHREAD_RUNNING \<and> ucp (heap s' a) = None"
      using inv t by (auto simp: sched_inv_def)
  qed
  have c3: "\<forall>a \<in> set (ready_queue s'). state (heap s' a) \<noteq> GTTHREAD_DONE
            \<and> (state (heap s' a) = GTTHREAD_CANCEL \<longrightarrow> a \<in> set (zombie_queue s'))"
  proof
    fix a assume a: "a \<in> set (ready_queue s')"
    with c1(1) have n: "a \<noteq> nxt" by (auto simp: s'(3))
    from a have "a \<in> set rest \<or> a = current s" by (auto simp: s'(1))
    then show "state (heap s' a) \<noteq> GTTHREAD_DONE
            \<and> (state (heap s' a) = GTTHREAD_CANCEL \<longrightarrow> a \<in> set (zombie_queue s'))"
      using inv rq t(3) [OF n] by (auto simp: sched_inv_def s'(2))
  qed
  from inv have c4: "(\<forall>a \<in> descs s. 0 < tid (heap s a) \<and> tid (heap s a) < maxtid s \<and> a < brk s)
      \<and> (\<forall>a \<in> descs s. \<forall>b \<in> descs s. tid (heap s a) = tid (heap s b) \<longrightarrow> a = b)"
    by (simp add: sched_inv_def)
  show ?thesis
    unfolding sched_inv_def d
    using c1 c2 c3 c4 t(4) by (simp add: t(1) s'(3,5,6))
qed


subsection \<open>Witness of the failure cases of gtthread\_join\<close>

theorem gtthread_join_failure_witness:
  "join_rejected st_init 1 \<and> gtthread_join st_init 1 None = Some (Return (- 1) st_init)
   \<and> join_rejected st_init 7 \<and> gtthread_join st_init 7 None = Some (Return (- 1) st_init)
   \<and> join_rejected st_B_joined 2
   \<and> gtthread_join st_B_joined 2 (Some 200) = Some (Return (- 1) st_B_joined)
   \<and> \<not> join_rejected st_A 3
   \<and> gtthread_join st_A 3 None = Some (NoReturn (Switch st_B_joined))"
proof -
  have r1: "join_rejected st_init 1" and r2: "join_rejected st_init 7"
    by (simp_all add: join_rejected_def st_defs)
  have r3: "join_rejected st_B_joined 2"
    by (simp add: join_rejected_def st_defs thread_get_def)
  have r4: "\<not> join_rejected st_A 3"
    by (simp add: join_rejected_def st_defs thread_get_def)
  show ?thesis
    using gtthread_join_failure [of st_init 1 None] gtthread_join_failure [of st_init 7 None]
      gtthread_join_failure [of st_B_joined 2 "Some 200"] r1 r2 r3 r4 run_A_joins_B
    by simp
qed

subsection \<open>Calls that return with the signal blocked\<close>

lemma gtthread_yield_empty:
  "ready_queue s = [] \<Longrightarrow> gtthread_yield s = Return 0 (sigprocmask_block s)"
  by (simp add: gtthread_yield_def Let_def steque_isempty_def)

text \<open>
  C5. Right after \<open>gtthread_init\<close> the ready queue is empty. There
  \<open>gtthread_yield\<close> returns 0 and the handler returns, both with SIGVTALRM
  still blocked: neither lifts the mask it set on entry.
\<close>

theorem yield_returns_blocked:
  "gtthread_yield st_init = Return 0 (st_init\<lparr>blocked := True\<rparr>)
   \<and> sigvtalrm_handler st_init = Return () (st_init\<lparr>blocked := True\<rparr>)
   \<and> blocked st_init = False"
  by (simp add: run_defs st_defs)

subsection \<open>The handler on a ready queue of cancelled descriptors\<close>

text \<open>
  C4. In \<open>st_cancelled\<close> the ready queue holds one descriptor, and it is
  cancelled. The handler pops it, moves it to the zombie queue and pops again,
  from the empty queue.
\<close>

theorem handler_pops_empty_queue:
  "sigvtalrm_handler st_cancelled = NoReturn (Fault Steque_underflow)
   \<and> ready_queue st_cancelled = [2]
   \<and> state (heap st_cancelled 2) = GTTHREAD_CANCEL"
  by (simp add: run_defs st_defs)

subsection \<open>gtthread\_exit with a cancelled descriptor at the head\<close>

text \<open>
  C3. In \<open>st_A_cancelled_B\<close> thread A (identity 2) runs and the cancelled B is
  at the head of the ready queue. \<open>gtthread_exit\<close> pops B without looking at
  its state and hands its context, which \<open>gtthread_cancel\<close> freed and set to
  \<open>NULL\<close>, to \<open>setcontext\<close>.
\<close>

theorem exit_installs_cancelled:
  "gtthread_exit st_A_cancelled_B 0 = Fault Null_context
   \<and> tid (heap st_A_cancelled_B (current st_A_cancelled_B)) = 2
   \<and> ready_queue st_A_cancelled_B = [4, 1]
   \<and> state (heap st_A_cancelled_B 4) = GTTHREAD_CANCEL"
  by (simp add: run_defs st_defs)

subsection \<open>Every call keeps the invariant\<close>

text \<open>A handler call that does not return has switched or has run into a fault.\<close>

lemma handler_NoReturn:
  "sigvtalrm_handler s = NoReturn x \<Longrightarrow> (\<exists>s'. x = Switch s') \<or> (\<exists>f. x = Fault f)"
  by (auto simp: sigvtalrm_handler_def Let_def swapcontext_def
      split: if_splits option.splits sum.splits prod.splits)

lemma yield_Switch:
  assumes "gtthread_yield s = NoReturn (Switch s')"
  shows "\<exists>nxt rest. ready_queue s = nxt # rest
     \<and> ready_queue s' = rest @ [current s] \<and> zombie_queue s' = zombie_queue s
     \<and> current s' = nxt \<and> heap s' = heap s
     \<and> maxtid s' = maxtid s \<and> brk s' = brk s \<and> mem s' = mem s \<and> blocked s' = False
     \<and> ucp (heap s nxt) \<noteq> None \<and> ucp (heap s (current s)) \<noteq> None"
  using assms
  by (cases "ready_queue s")
     (auto simp: gtthread_yield_def Let_def steque_isempty_def steque_pop_def steque_enqueue_def
       swapcontext_def split: option.splits)

text \<open>The parts of the invariant, one by one.\<close>

lemma sched_invD:
  assumes "sched_inv s"
  shows "current s \<notin> set (ready_queue s)"
    and "current s \<notin> set (zombie_queue s)"
    and "distinct (ready_queue s)"
    and "state (heap s (current s)) = GTTHREAD_RUNNING"
    and "\<And>a. a \<in> set (zombie_queue s) \<Longrightarrow> state (heap s a) \<noteq> GTTHREAD_RUNNING"
    and "\<And>a. a \<in> set (zombie_queue s) \<Longrightarrow> ucp (heap s a) = None"
    and "\<And>a. a \<in> set (ready_queue s) \<Longrightarrow> state (heap s a) \<noteq> GTTHREAD_DONE"
    and "\<And>a. a \<in> set (ready_queue s) \<Longrightarrow> state (heap s a) = GTTHREAD_CANCEL
           \<Longrightarrow> a \<in> set (zombie_queue s)"
    and "\<And>a. a \<in> descs s \<Longrightarrow> 0 < tid (heap s a)"
    and "\<And>a. a \<in> descs s \<Longrightarrow> tid (heap s a) < maxtid s"
    and "\<And>a. a \<in> descs s \<Longrightarrow> a < brk s"
    and "\<And>a b. a \<in> descs s \<Longrightarrow> b \<in> descs s \<Longrightarrow> tid (heap s a) = tid (heap s b) \<Longrightarrow> a = b"
  using assms unfolding sched_inv_def by blast+

lemma sched_invI:
  assumes "current s \<notin> set (ready_queue s)"
    and "current s \<notin> set (zombie_queue s)"
    and "distinct (ready_queue s)"
    and "state (heap s (current s)) = GTTHREAD_RUNNING"
    and "\<And>a. a \<in> set (zombie_queue s) \<Longrightarrow> state (heap s a) \<noteq> GTTHREAD_RUNNING"
    and "\<And>a. a \<in> set (zombie_queue s) \<Longrightarrow> ucp (heap s a) = None"
    and "\<And>a. a \<in> set (ready_queue s) \<Longrightarrow> state (heap s a) \<noteq> GTTHREAD_DONE"
    and "\<And>a. a \<in> set (ready_queue s) \<Longrightarrow> state (heap s a) = GTTHREAD_CANCEL
           \<Longrightarrow> a \<in> set (zombie_queue s)"
    and "\<And>a. a \<in> descs s \<Longrightarrow> 0 < tid (heap s a)"
    and "\<And>a. a \<in> descs s \<Longrightarrow> tid (heap s a) < maxtid s"
    and "\<And>a. a \<in> descs s \<Longrightarrow> a < brk s"
    and "\<And>a b. a \<in> descs s \<Longrightarrow> b \<in> descs s \<Longrightarrow> tid (heap s a) = tid (heap s b) \<Longrightarrow> a = b"
  shows "sched_inv s"
  unfolding sched_inv_def using assms by blast

lemma ready_in_descs: "a \<in> set (ready_queue s) \<Longrightarrow> a \<in> descs s"
  and zombie_in_descs: "a \<in> set (zombie_queue s) \<Longrightarrow> a \<in> descs s"
  and current_in_descs: "current s \<in> descs s"
  by (simp_all add: descs_def)

lemma ready_not_zombie_RUNNING:
  assumes "sched_inv s" and "a \<in> set (ready_queue s)" and "a \<notin> set (zombie_queue s)"
  shows "state (heap s a) = GTTHREAD_RUNNING"
  using sched_invD(7,8) [OF assms(1) assms(2)] assms(3)
  by (cases "state (heap s a)") auto

lemma yield_inv:
  assumes inv: "sched_inv s" and sw: "gtthread_yield s = NoReturn (Switch s')"
  shows "sched_inv s'"
proof -
  note D = sched_invD [OF inv]
  from yield_Switch [OF sw] obtain nxt rest where
    rq: "ready_queue s = nxt # rest"
    and u: "ucp (heap s nxt) \<noteq> None"
    and s': "ready_queue s' = rest @ [current s]" "zombie_queue s' = zombie_queue s"
      "current s' = nxt" "heap s' = heap s" "maxtid s' = maxtid s" "brk s' = brk s"
    by blast
  from D(6) [of nxt] u have nz: "nxt \<notin> set (zombie_queue s)" by blast
  have nr: "nxt \<in> set (ready_queue s)" by (simp add: rq)
  have run: "state (heap s nxt) = GTTHREAD_RUNNING"
    by (rule ready_not_zombie_RUNNING [OF inv nr nz])
  have d: "descs s' = descs s"
    using rq s'(1-3) by (auto simp: descs_def)
  have sub: "\<And>a. a \<in> set (rest @ [current s]) \<Longrightarrow> a \<in> set rest \<or> a = current s" by auto
  have rsub: "\<And>a. a \<in> set rest \<Longrightarrow> a \<in> set (ready_queue s)" by (simp add: rq)
  show ?thesis
  proof (rule sched_invI; (unfold d s')?)
    show "nxt \<notin> set (rest @ [current s])" using D(1,3) rq by auto
    show "nxt \<notin> set (zombie_queue s)" by (rule nz)
    show "distinct (rest @ [current s])" using D(1,3) rq by auto
    show "state (heap s nxt) = GTTHREAD_RUNNING" by (rule run)
    show "\<And>a. a \<in> set (zombie_queue s) \<Longrightarrow> state (heap s a) \<noteq> GTTHREAD_RUNNING" by (rule D(5))
    show "\<And>a. a \<in> set (zombie_queue s) \<Longrightarrow> ucp (heap s a) = None" by (rule D(6))
    show "\<And>a. a \<in> set (rest @ [current s]) \<Longrightarrow> state (heap s a) \<noteq> GTTHREAD_DONE"
      using D(4,7) rsub sub by (metis tstate.distinct(4))
    show "\<And>a. a \<in> set (rest @ [current s]) \<Longrightarrow> state (heap s a) = GTTHREAD_CANCEL
           \<Longrightarrow> a \<in> set (zombie_queue s)"
      using D(4,8) rsub sub by (metis tstate.distinct(1))
    show "\<And>a. a \<in> descs s \<Longrightarrow> 0 < tid (heap s a)" by (rule D(9))
    show "\<And>a. a \<in> descs s \<Longrightarrow> tid (heap s a) < maxtid s" by (rule D(10))
    show "\<And>a. a \<in> descs s \<Longrightarrow> a < brk s" by (rule D(11))
    show "\<And>a b. a \<in> descs s \<Longrightarrow> b \<in> descs s \<Longrightarrow> tid (heap s a) = tid (heap s b) \<Longrightarrow> a = b"
      by (rule D(12))
  qed
qed

lemma create_Return:
  assumes "gtthread_create s p f a hst = Return r s'"
  shows "r = 0 \<and> getcontext_ret hst \<noteq> - 1
     \<and> ready_queue s' = ready_queue s @ [brk s] \<and> zombie_queue s' = zombie_queue s
     \<and> current s' = current s \<and> maxtid s' = Suc (maxtid s) \<and> brk s' = Suc (Suc (brk s))
     \<and> mem s' = (mem s)(p := maxtid s) \<and> blocked s' = False
     \<and> heap s' = (heap s)(brk s := (heap s (brk s))
          \<lparr>tid := maxtid s, state := GTTHREAD_RUNNING, proc := f, arg := a,
           ucp := Some \<lparr>ss_sp = Suc (brk s), uc_link = 0, uc_entry = Some (f, a)\<rparr>, joining := 0\<rparr>)"
  using assms
  by (auto simp: gtthread_create_def Let_def malloc_def steque_enqueue_def
      sigprocmask_block_def sigprocmask_unblock_def split: if_splits)

lemma create_inv:
  assumes inv: "sched_inv s" and c: "gtthread_create s p f a hst = Return r s'"
  shows "sched_inv s'"
proof -
  note e = create_Return [OF c]
  from inv have fresh: "brk s \<notin> descs s" by (auto simp: sched_inv_def)
  from e have e': "ready_queue s' = ready_queue s @ [brk s]" "zombie_queue s' = zombie_queue s"
     "current s' = current s" "maxtid s' = Suc (maxtid s)" "brk s' = Suc (Suc (brk s))" by simp_all
  have d: "descs s' = insert (brk s) (descs s)"
    using e' by (auto simp: descs_def)
  from e have h: "tid (heap s' (brk s)) = maxtid s" "state (heap s' (brk s)) = GTTHREAD_RUNNING"
    by simp_all
  from e fresh have old: "\<And>b. b \<in> descs s \<Longrightarrow> heap s' b = heap s b"
    by auto
  from fresh have f2: "brk s \<noteq> current s" "brk s \<notin> set (ready_queue s)"
    "brk s \<notin> set (zombie_queue s)"
    by (auto simp: descs_def)
  have q: "\<And>b. b \<in> set (ready_queue s) \<Longrightarrow> heap s' b = heap s b"
    "\<And>b. b \<in> set (zombie_queue s) \<Longrightarrow> heap s' b = heap s b"
    "heap s' (current s) = heap s (current s)"
    using old by (auto simp: descs_def)
  from inv have pos: "0 < maxtid s"
    by (auto simp: sched_inv_def descs_def)
  have c1: "current s \<notin> set (ready_queue s @ [brk s])" "current s \<notin> set (zombie_queue s)"
    "distinct (ready_queue s @ [brk s])" "state (heap s' (current s)) = GTTHREAD_RUNNING"
    using inv f2 q(3) by (auto simp: sched_inv_def)
  have c2: "\<forall>a \<in> set (zombie_queue s).
      state (heap s' a) \<noteq> GTTHREAD_RUNNING \<and> ucp (heap s' a) = None"
    using inv q(2) by (simp add: sched_inv_def)
  have c3: "\<forall>a \<in> set (ready_queue s @ [brk s]). state (heap s' a) \<noteq> GTTHREAD_DONE
      \<and> (state (heap s' a) = GTTHREAD_CANCEL \<longrightarrow> a \<in> set (zombie_queue s))"
    using inv q(1) h(2) by (auto simp: sched_inv_def)
  have c4: "\<forall>a \<in> insert (brk s) (descs s).
      0 < tid (heap s' a) \<and> tid (heap s' a) < Suc (maxtid s) \<and> a < Suc (Suc (brk s))"
  proof
    fix a assume "a \<in> insert (brk s) (descs s)"
    then consider "a = brk s" | "a \<in> descs s" by auto
    then show "0 < tid (heap s' a) \<and> tid (heap s' a) < Suc (maxtid s) \<and> a < Suc (Suc (brk s))"
    proof cases
      case 1
      then show ?thesis using h(1) pos by simp
    next
      case 2
      with inv have "0 < tid (heap s a) \<and> tid (heap s a) < maxtid s \<and> a < brk s"
        by (simp add: sched_inv_def)
      then show ?thesis using old [OF 2] by simp
    qed
  qed
  have lt: "\<And>b. b \<in> descs s \<Longrightarrow> tid (heap s' b) < maxtid s"
    using inv old by (simp add: sched_inv_def)
  have inj: "\<And>a b. a \<in> descs s \<Longrightarrow> b \<in> descs s \<Longrightarrow> tid (heap s' a) = tid (heap s' b) \<Longrightarrow> a = b"
    using inv old by (simp add: sched_inv_def)
  have c5: "\<forall>a \<in> insert (brk s) (descs s). \<forall>b \<in> insert (brk s) (descs s).
      tid (heap s' a) = tid (heap s' b) \<longrightarrow> a = b"
  proof (intro ballI impI)
    fix a b assume ab: "a \<in> insert (brk s) (descs s)" "b \<in> insert (brk s) (descs s)"
      "tid (heap s' a) = tid (heap s' b)"
    show "a = b"
    proof (cases "a = brk s")
      case True
      show ?thesis
      proof (cases "b = brk s")
        case True
        with \<open>a = brk s\<close> show ?thesis by simp
      next
        case False
        with ab(2) have "b \<in> descs s" by simp
        from lt [OF this] ab(3) True h(1) show ?thesis by simp
      qed
    next
      case False
      with ab(1) have a: "a \<in> descs s" by simp
      show ?thesis
      proof (cases "b = brk s")
        case True
        from lt [OF a] ab(3) True h(1) show ?thesis by simp
      next
        case False
        with ab(2) have "b \<in> descs s" by simp
        from inj [OF a this ab(3)] show ?thesis .
      qed
    qed
  qed
  show ?thesis
    unfolding sched_inv_def d e'
    using c1 c2 c3 c4 c5 by blast
qed


text \<open>The loop of the main thread in \<open>gtthread_exit\<close>.\<close>

lemma exit_main_loop_nonempty:
  assumes "ready_queue s \<noteq> []"
  shows "\<exists>x. sigvtalrm_handler (sigprocmask_unblock s) = NoReturn x \<and> exit_main_loop s rv = x"
proof (cases "sigvtalrm_handler (sigprocmask_unblock s)")
  case (Return u s')
  from handler_Return [OF this] assms show ?thesis by simp
next
  case (NoReturn x)
  with assms show ?thesis
    by (simp add: exit_main_loop.simps [of s rv] steque_isempty_def)
qed

lemma exit_main_loop_empty: "ready_queue s = [] \<Longrightarrow> exit_main_loop s rv = Exit (Long rv)"
  by (simp add: exit_main_loop.simps [of s rv] steque_isempty_def)

lemma exit_main_loop_lands:
  assumes "lands (exit_main_loop s rv) = Some s'"
  shows "sigvtalrm_handler (sigprocmask_unblock s) = NoReturn (Switch s')"
proof (cases "ready_queue s = []")
  case True
  with assms show ?thesis by (simp add: exit_main_loop_empty lands_def)
next
  case False
  from exit_main_loop_nonempty [OF False, of rv] obtain x where
    x: "sigvtalrm_handler (sigprocmask_unblock s) = NoReturn x" "exit_main_loop s rv = x" by blast
  from handler_NoReturn [OF x(1)] assms x(2) have "x = Switch s'"
    by (auto simp: lands_def)
  with x(1) show ?thesis by simp
qed

lemma exit_Install:
  assumes "gtthread_exit s rv = Install s'" and "current s \<notin> set (ready_queue s)"
  shows "\<exists>nxt rest. ready_queue s = nxt # rest \<and> tid (heap s (current s)) \<noteq> 1
     \<and> ready_queue s' = rest \<and> zombie_queue s' = zombie_queue s @ [current s]
     \<and> current s' = nxt
     \<and> heap s' = (heap s)(nxt := (heap s nxt)\<lparr>state := GTTHREAD_RUNNING\<rparr>,
          current s := (heap s (current s))
            \<lparr>ucp := None, state := GTTHREAD_DONE, retval := rv, joining := 0\<rparr>)
     \<and> maxtid s' = maxtid s \<and> brk s' = brk s \<and> mem s' = mem s \<and> blocked s' = False
     \<and> ucp (heap s nxt) \<noteq> None \<and> ucp (heap s (current s)) \<noteq> None"
proof (cases "ready_queue s")
  case Nil
  with assms show ?thesis by (simp add: gtthread_exit_def Let_def steque_isempty_def)
next
  case (Cons nxt rest)
  with assms(2) have ne: "nxt \<noteq> current s" "current s \<noteq> nxt" by auto
  show ?thesis
  proof (cases "tid (heap s (current s)) = 1")
    case True
    from exit_main_loop_nonempty [of "sigprocmask_block s" rv] Cons obtain x where
      x: "sigvtalrm_handler (sigprocmask_unblock (sigprocmask_block s)) = NoReturn x"
        "exit_main_loop (sigprocmask_block s) rv = x" by auto
    from handler_NoReturn [OF x(1)] x(2) True Cons assms show ?thesis
      by (auto simp: gtthread_exit_def Let_def steque_isempty_def)
  next
    case False
    from assms(1) False Cons ne show ?thesis
      by (simp add: gtthread_exit_def Let_def steque_isempty_def steque_pop_def
          steque_enqueue_def setcontext_def sigprocmask_unblock_def sigprocmask_block_def
          split: option.splits) auto
  qed
qed

lemma exit_not_Switch:
  "tid (heap s (current s)) \<noteq> 1 \<Longrightarrow> gtthread_exit s rv \<noteq> Switch s'"
  by (auto simp: gtthread_exit_def Let_def setcontext_def split: option.splits if_splits)

lemma exit_lands:
  assumes "lands (gtthread_exit s rv) = Some s'"
  shows "gtthread_exit s rv = Install s'
         \<or> sigvtalrm_handler (sigprocmask_unblock (sigprocmask_block s)) = NoReturn (Switch s')"
proof (cases "ready_queue s = []")
  case True
  with assms show ?thesis by (simp add: gtthread_exit_def Let_def steque_isempty_def lands_def)
next
  case False
  show ?thesis
  proof (cases "tid (heap s (current s)) = 1")
    case True
    with False assms have "lands (exit_main_loop (sigprocmask_block s) rv) = Some s'"
      by (simp add: gtthread_exit_def Let_def steque_isempty_def)
    from exit_main_loop_lands [OF this] show ?thesis ..
  next
    case False
    from exit_not_Switch [OF False, of rv] assms have "gtthread_exit s rv = Install s'"
      by (cases "gtthread_exit s rv") (auto simp: lands_def)
    then show ?thesis ..
  qed
qed

lemma exit_inv:
  assumes inv: "sched_inv s" and ex: "gtthread_exit s rv = Install s'"
  shows "sched_inv s'"
proof -
  note D = sched_invD [OF inv]
  from exit_Install [OF ex D(1)] obtain nxt rest where
    rq: "ready_queue s = nxt # rest"
    and u: "ucp (heap s nxt) \<noteq> None"
    and s': "ready_queue s' = rest" "zombie_queue s' = zombie_queue s @ [current s]"
      "current s' = nxt" "maxtid s' = maxtid s" "brk s' = brk s"
    and h: "heap s' = (heap s)(nxt := (heap s nxt)\<lparr>state := GTTHREAD_RUNNING\<rparr>,
          current s := (heap s (current s))
            \<lparr>ucp := None, state := GTTHREAD_DONE, retval := rv, joining := 0\<rparr>)"
    by blast
  have nr: "nxt \<in> set (ready_queue s)" by (simp add: rq)
  with D(1) have ne: "nxt \<noteq> current s" by auto
  from D(6) [of nxt] u have nz: "nxt \<notin> set (zombie_queue s)" by blast
  have run: "state (heap s nxt) = GTTHREAD_RUNNING"
    by (rule ready_not_zombie_RUNNING [OF inv nr nz])
  have idem: "(heap s nxt)\<lparr>state := GTTHREAD_RUNNING\<rparr> = heap s nxt"
    by (subst run [symmetric]) simp
  have hn: "heap s' nxt = heap s nxt"
    using ne by (simp add: h idem)
  have hc: "tid (heap s' (current s)) = tid (heap s (current s))"
    "state (heap s' (current s)) = GTTHREAD_DONE" "ucp (heap s' (current s)) = None"
    by (simp_all add: h)
  have ho: "\<And>a. a \<noteq> current s \<Longrightarrow> heap s' a = heap s a"
    by (simp add: h idem)
  have ht: "\<And>a. tid (heap s' a) = tid (heap s a)"
    using hc(1) ho by metis
  have d: "descs s' = descs s"
    using rq s'(1-3) by (auto simp: descs_def)
  have rsub: "\<And>a. a \<in> set rest \<Longrightarrow> a \<in> set (ready_queue s) \<and> a \<noteq> current s"
    using D(1) by (auto simp: rq)
  show ?thesis
  proof (rule sched_invI; (unfold d s' ht)?)
    show "nxt \<notin> set rest" using D(3) rq by auto
    show "nxt \<notin> set (zombie_queue s @ [current s])" using nz ne by auto
    show "distinct rest" using D(3) rq by auto
    show "state (heap s' nxt) = GTTHREAD_RUNNING" using run hn by simp
    show "\<And>a. a \<in> set (zombie_queue s @ [current s]) \<Longrightarrow> state (heap s' a) \<noteq> GTTHREAD_RUNNING"
      using D(2,5) hc(2) ho by (metis Un_iff empty_iff empty_set insert_iff list.simps(15) set_append tstate.distinct(3))
    show "\<And>a. a \<in> set (zombie_queue s @ [current s]) \<Longrightarrow> ucp (heap s' a) = None"
      using D(2,6) hc(3) ho by (metis Un_iff empty_iff empty_set insert_iff list.simps(15) set_append)
    show "\<And>a. a \<in> set rest \<Longrightarrow> state (heap s' a) \<noteq> GTTHREAD_DONE"
      using D(7) rsub ho by metis
    show "\<And>a. a \<in> set rest \<Longrightarrow> state (heap s' a) = GTTHREAD_CANCEL
           \<Longrightarrow> a \<in> set (zombie_queue s @ [current s])"
      using D(8) rsub ho by (metis Un_iff set_append)
    show "\<And>a. a \<in> descs s \<Longrightarrow> 0 < tid (heap s a)" by (rule D(9))
    show "\<And>a. a \<in> descs s \<Longrightarrow> tid (heap s a) < maxtid s" by (rule D(10))
    show "\<And>a. a \<in> descs s \<Longrightarrow> a < brk s" by (rule D(11))
    show "\<And>a b. a \<in> descs s \<Longrightarrow> b \<in> descs s \<Longrightarrow> tid (heap s a) = tid (heap s b) \<Longrightarrow> a = b"
      by (rule D(12))
  qed
qed


lemma cancel_Return:
  assumes "gtthread_cancel s i = Return r s'"
  shows "i \<noteq> tid (heap s (current s)) \<and>
    ((r = - 1 \<and> s' = sigprocmask_unblock (sigprocmask_block s)
        \<and> (thread_get s i = None
            \<or> (\<exists>t. thread_get s i = Some t \<and> state (heap s t) \<noteq> GTTHREAD_RUNNING)))
     \<or> (r = 0 \<and> (\<exists>t. thread_get s i = Some t \<and> state (heap s t) = GTTHREAD_RUNNING
           \<and> ucp (heap s t) \<noteq> None
           \<and> ready_queue s' = ready_queue s \<and> zombie_queue s' = zombie_queue s @ [t]
           \<and> current s' = current s
           \<and> heap s' = (heap s)(t := (heap s t)\<lparr>state := GTTHREAD_CANCEL, ucp := None, joining := 0\<rparr>)
           \<and> maxtid s' = maxtid s \<and> brk s' = brk s \<and> mem s' = mem s \<and> blocked s' = False)))"
proof -
  from assms have ne: "i \<noteq> tid (heap s (current s))"
    by (auto simp: gtthread_cancel_def gtthread_equal_def split: if_splits)
  have tg: "thread_get (sigprocmask_block s) i = thread_get s i"
    by (simp add: thread_get_def cong: option.case_cong)
  show ?thesis
  proof (cases "thread_get s i")
    case None
    with assms ne tg show ?thesis
      by (simp add: gtthread_cancel_def gtthread_equal_def Let_def)
  next
    case (Some t)
    show ?thesis
    proof (cases "state (heap s t)")
      case GTTHREAD_RUNNING
      with assms ne tg Some show ?thesis
        by (auto simp: gtthread_cancel_def gtthread_equal_def Let_def steque_enqueue_def
            sigprocmask_block_def sigprocmask_unblock_def split: option.splits)
    next
      case GTTHREAD_CANCEL
      with assms ne tg Some show ?thesis
        by (simp add: gtthread_cancel_def gtthread_equal_def Let_def)
    next
      case GTTHREAD_DONE
      with assms ne tg Some show ?thesis
        by (simp add: gtthread_cancel_def gtthread_equal_def Let_def)
    qed
  qed
qed

lemma cancel_NoReturn:
  assumes "gtthread_cancel s i = NoReturn x"
  shows "(i = tid (heap s (current s)) \<and> x = gtthread_exit s 0) \<or> x = Fault Null_context"
  using assms
  by (auto simp: gtthread_cancel_def gtthread_equal_def Let_def
      split: if_splits option.splits)

lemma cancel_inv:
  assumes inv: "sched_inv s" and c: "gtthread_cancel s i = Return r s'"
  shows "sched_inv s'"
proof -
  note D = sched_invD [OF inv]
  from cancel_Return [OF c] consider
    (fail) "s' = sigprocmask_unblock (sigprocmask_block s)"
  | (ok) t where "thread_get s i = Some t" "state (heap s t) = GTTHREAD_RUNNING"
      "ready_queue s' = ready_queue s" "zombie_queue s' = zombie_queue s @ [t]"
      "current s' = current s" "maxtid s' = maxtid s" "brk s' = brk s"
      "heap s' = (heap s)(t := (heap s t)\<lparr>state := GTTHREAD_CANCEL, ucp := None, joining := 0\<rparr>)"
    by blast
  then show ?thesis
  proof cases
    case fail
    with inv show ?thesis by simp
  next
    case ok
    from thread_get_Some [OF ok(1)] D(5) [of t] ok(2) have tr: "t \<in> set (ready_queue s)"
      by auto
    with D(1) have ne: "t \<noteq> current s" by auto
    have ht: "\<And>a. tid (heap s' a) = tid (heap s a)" by (simp add: ok(8))
    have ho: "\<And>a. a \<noteq> t \<Longrightarrow> heap s' a = heap s a" by (simp add: ok(8))
    have hc: "state (heap s' t) = GTTHREAD_CANCEL" "ucp (heap s' t) = None" by (simp_all add: ok(8))
    have d: "descs s' = descs s"
      using tr ok(3-5) by (auto simp: descs_def)
    show ?thesis
    proof (rule sched_invI; (unfold d ok(3-7) ht)?)
      show "current s \<notin> set (ready_queue s)" by (rule D(1))
      show "current s \<notin> set (zombie_queue s @ [t])" using D(2) ne by auto
      show "distinct (ready_queue s)" by (rule D(3))
      show "state (heap s' (current s)) = GTTHREAD_RUNNING" using D(4) ho ne by metis
      show "\<And>a. a \<in> set (zombie_queue s @ [t]) \<Longrightarrow> state (heap s' a) \<noteq> GTTHREAD_RUNNING"
        using D(5) hc(1) ho
        by (metis Un_iff empty_iff empty_set insert_iff list.simps(15) set_append tstate.distinct(1))
      show "\<And>a. a \<in> set (zombie_queue s @ [t]) \<Longrightarrow> ucp (heap s' a) = None"
        using D(6) hc(2) ho
        by (metis Un_iff empty_iff empty_set insert_iff list.simps(15) set_append)
      show "\<And>a. a \<in> set (ready_queue s) \<Longrightarrow> state (heap s' a) \<noteq> GTTHREAD_DONE"
        using D(7) hc(1) ho by (metis tstate.distinct(5))
      show "\<And>a. a \<in> set (ready_queue s) \<Longrightarrow> state (heap s' a) = GTTHREAD_CANCEL
           \<Longrightarrow> a \<in> set (zombie_queue s @ [t])"
        using D(8) ho by (metis Un_iff insert_iff list.simps(15) set_append)
      show "\<And>a. a \<in> descs s \<Longrightarrow> 0 < tid (heap s a)" by (rule D(9))
      show "\<And>a. a \<in> descs s \<Longrightarrow> tid (heap s a) < maxtid s" by (rule D(10))
      show "\<And>a. a \<in> descs s \<Longrightarrow> a < brk s" by (rule D(11))
      show "\<And>a b. a \<in> descs s \<Longrightarrow> b \<in> descs s \<Longrightarrow> tid (heap s a) = tid (heap s b) \<Longrightarrow> a = b"
        by (rule D(12))
    qed
  qed
qed

lemma lands_cases: "lands x = Some s' \<Longrightarrow> x = Switch s' \<or> x = Install s'"
  by (cases x) (auto simp: lands_def)

lemma exit_lands_inv:
  assumes inv: "sched_inv s" and l: "lands (gtthread_exit s rv) = Some s'"
  shows "sched_inv s'"
  using exit_lands [OF l]
proof
  assume "gtthread_exit s rv = Install s'"
  then show ?thesis by (rule exit_inv [OF inv])
next
  assume "sigvtalrm_handler (sigprocmask_unblock (sigprocmask_block s)) = NoReturn (Switch s')"
  moreover from inv have "sched_inv (sigprocmask_unblock (sigprocmask_block s))" by simp
  ultimately show ?thesis by (rule handler_inv [rotated])
qed

lemma join_loop_inv:
  assumes inv: "sched_inv s" and j: "join_loop s t status = Some y" and c: "continues y = Some s'"
  shows "sched_inv s'"
proof (cases "state (heap s t) = GTTHREAD_RUNNING")
  case True
  with join_loop_Some [OF j] obtain x where
    x: "sigvtalrm_handler (sigprocmask_unblock s) = NoReturn x" "y = NoReturn x" by auto
  from handler_NoReturn [OF x(1)] c x(2) have "x = Switch s'"
    by (auto simp: continues_def lands_def)
  with x(1) have "sigvtalrm_handler (sigprocmask_unblock s) = NoReturn (Switch s')" by simp
  moreover from inv have "sched_inv (sigprocmask_unblock s)" by simp
  ultimately show ?thesis by (rule handler_inv [rotated])
next
  case False
  with join_loop_Some [OF j] have "y = join_finish s t status" by simp
  with c inv show ?thesis
    by (auto simp: join_finish_def continues_def split: option.splits if_splits)
qed

lemma join_inv:
  assumes inv: "sched_inv s" and j: "gtthread_join s i status = Some y"
    and c: "continues y = Some s'"
  shows "sched_inv s'"
proof (cases "join_rejected s i")
  case True
  with join_rejected_fails [of s i status] j c inv show ?thesis
    by (simp add: continues_def)
next
  case False
  then obtain t where t: "thread_get s i = Some t"
    by (auto simp: join_rejected_def thread_get_None_iff [symmetric] simp del: Un_iff)
  let ?s1 = "s\<lparr>heap := (heap s)(current s := (heap s (current s))\<lparr>joining := tid (heap s t)\<rparr>)\<rparr>"
  from False t j have "join_loop ?s1 t status = Some y"
    by (auto simp: join_rejected_def gtthread_join_def Let_def split: if_splits)
  from join_loop_inv [OF _ this c] inv show ?thesis by simp
qed

lemma create_continues:
  "continues (gtthread_create s p f a hst) = Some s' \<Longrightarrow> gtthread_create s p f a hst = Return 0 s'"
  by (auto simp: gtthread_create_def Let_def malloc_def continues_def lands_def split: if_splits)

lemma yield_continues:
  assumes "continues (gtthread_yield s) = Some s'"
  shows "s' = sigprocmask_block s \<or> gtthread_yield s = NoReturn (Switch s')"
  using assms
  by (auto simp: gtthread_yield_def Let_def continues_def lands_def swapcontext_def
      split: if_splits option.splits)

lemma handler_continues:
  assumes "continues (sigvtalrm_handler s) = Some s'"
  shows "s' = sigprocmask_block s \<or> sigvtalrm_handler s = NoReturn (Switch s')"
proof (cases "sigvtalrm_handler s")
  case (Return u s1)
  from handler_Return [OF this] assms Return show ?thesis by (simp add: continues_def)
next
  case (NoReturn x)
  from handler_NoReturn [OF this] assms NoReturn show ?thesis
    by (auto simp: continues_def lands_def)
qed

lemma cancel_continues:
  assumes "continues (gtthread_cancel s i) = Some s'"
  shows "(\<exists>r. gtthread_cancel s i = Return r s') \<or> lands (gtthread_exit s 0) = Some s'"
proof (cases "gtthread_cancel s i")
  case (Return r s1)
  with assms show ?thesis by (simp add: continues_def)
next
  case (NoReturn x)
  from cancel_NoReturn [OF this] assms NoReturn show ?thesis
    by (auto simp: continues_def lands_def)
qed

text \<open>Every step keeps the invariant, so it holds in every state a program reaches.\<close>

lemma step_inv:
  assumes "step s s'" and inv: "sched_inv s"
  shows "sched_inv s'"
  using assms(1)
proof cases
  case (step_create p f a hst)
  from create_inv [OF inv create_continues [OF this]] show ?thesis .
next
  case (step_join i status y)
  from join_inv [OF inv this] show ?thesis .
next
  case (step_join_resume t status y)
  from this(1) have "join_loop (sigprocmask_block s) t status = Some y"
    by (simp add: join_resume_def)
  from join_loop_inv [OF _ this step_join_resume(2)] inv show ?thesis by simp
next
  case (step_exit rv)
  from exit_lands_inv [OF inv this] show ?thesis .
next
  case (step_exit_resume rv)
  then have "lands (exit_main_loop (sigprocmask_block s) rv) = Some s'"
    by (simp add: exit_main_resume_def)
  from exit_main_loop_lands [OF this]
  have "sigvtalrm_handler (sigprocmask_unblock (sigprocmask_block s)) = NoReturn (Switch s')" .
  moreover from inv have "sched_inv (sigprocmask_unblock (sigprocmask_block s))" by simp
  ultimately show ?thesis by (rule handler_inv [rotated])
next
  case step_yield
  from yield_continues [OF this] show ?thesis
  proof
    assume "s' = sigprocmask_block s" with inv show ?thesis by simp
  next
    assume "gtthread_yield s = NoReturn (Switch s')"
    from yield_inv [OF inv this] show ?thesis .
  qed
next
  case (step_cancel i)
  from cancel_continues [OF this] show ?thesis
  proof
    assume "\<exists>r. gtthread_cancel s i = Return r s'"
    then obtain r where "gtthread_cancel s i = Return r s'" ..
    from cancel_inv [OF inv this] show ?thesis .
  next
    assume "lands (gtthread_exit s 0) = Some s'"
    from exit_lands_inv [OF inv this] show ?thesis .
  qed
next
  case step_handler
  from handler_continues [OF this] show ?thesis
  proof
    assume "s' = sigprocmask_block s" with inv show ?thesis by simp
  next
    assume "sigvtalrm_handler s = NoReturn (Switch s')"
    from handler_inv [OF inv this] show ?thesis .
  qed
next
  case step_start_enter
  with inv show ?thesis by (simp add: gtthread_start_enter_def)
next
  case (step_start_finish r)
  let ?s1 = "s\<lparr>heap := (heap s)(current s := (heap s (current s))\<lparr>retval := r\<rparr>)\<rparr>"
  from step_start_finish have "lands (gtthread_exit ?s1 (retval (heap ?s1 (current ?s1)))) = Some s'"
    by (simp add: gtthread_start_finish_def Let_def)
  from exit_lands_inv [OF _ this] inv show ?thesis by simp
next
  case (step_store m)
  with inv show ?thesis by simp
next
  case (step_sigreturn b)
  with inv show ?thesis by simp
qed

lemma reachable_inv: "reachable s \<Longrightarrow> sched_inv s"
  by (induction rule: reachable.induct) (auto intro: init_inv step_inv)

subsection \<open>The first example states are reached\<close>

lemma reachable_st_init: "reachable st_init"
  using run_init by (auto simp: boot_def intro: reach_init)

lemma reachable_st_one: "reachable st_one"
  by (rule reach_step [OF reachable_st_init], rule step_create [of _ 100 7 41 host_ok])
     (simp add: run_create_A continues_def)

lemma reachable_st_cancelled: "reachable st_cancelled"
  by (rule reach_step [OF reachable_st_one], rule step_cancel [of _ 2])
     (simp add: run_cancel_A continues_def)

subsection \<open>Identities\<close>

text \<open>Every call but \<open>gtthread_create\<close> leaves the counter, the descriptors and their identities as they are.\<close>

lemma same_ids_refl [simp]: "same_ids s s"
  by (simp add: same_ids_def)

lemma same_ids_trans: "same_ids s s1 \<Longrightarrow> same_ids s1 s' \<Longrightarrow> same_ids s s'"
  by (simp add: same_ids_def)

lemma same_ids_simps [simp]:
  "same_ids s (sigprocmask_block s)" "same_ids s (sigprocmask_unblock s)"
  "same_ids s (s\<lparr>mem := m\<rparr>)" "same_ids s (s\<lparr>blocked := b\<rparr>)"
  "same_ids s (s\<lparr>heap := (heap s)(c := (heap s c)\<lparr>joining := j\<rparr>)\<rparr>)"
  "same_ids s (s\<lparr>heap := (heap s)(c := (heap s c)\<lparr>retval := r\<rparr>)\<rparr>)"
  by (simp_all add: same_ids_def descs_def)

lemma handler_same_ids:
  assumes "sigvtalrm_handler s = NoReturn (Switch s')"
  shows "same_ids s s'"
proof -
  from handler_Switch [OF assms] obtain pre nxt rest where
    rq: "ready_queue s = pre @ nxt # rest"
    and s': "ready_queue s' = rest @ [current s]" "zombie_queue s' = zombie_queue s @ pre"
      "current s' = nxt" "heap s' = (heap s)(nxt := (heap s nxt)\<lparr>state := GTTHREAD_RUNNING\<rparr>)"
      "maxtid s' = maxtid s"
    by blast
  have "descs s' = descs s" using rq s'(1-3) by (auto simp: descs_def)
  then show ?thesis by (simp add: same_ids_def s'(4,5))
qed

lemma yield_same_ids:
  assumes "gtthread_yield s = NoReturn (Switch s')"
  shows "same_ids s s'"
proof -
  from yield_Switch [OF assms] obtain nxt rest where
    rq: "ready_queue s = nxt # rest"
    and s': "ready_queue s' = rest @ [current s]" "zombie_queue s' = zombie_queue s"
      "current s' = nxt" "heap s' = heap s" "maxtid s' = maxtid s"
    by blast
  have "descs s' = descs s" using rq s'(1-3) by (auto simp: descs_def)
  then show ?thesis by (simp add: same_ids_def s'(4,5))
qed

lemma exit_same_ids:
  assumes "gtthread_exit s rv = Install s'" and "current s \<notin> set (ready_queue s)"
  shows "same_ids s s'"
proof -
  from exit_Install [OF assms] obtain nxt rest where
    rq: "ready_queue s = nxt # rest"
    and s': "ready_queue s' = rest" "zombie_queue s' = zombie_queue s @ [current s]"
      "current s' = nxt" "maxtid s' = maxtid s"
    and h: "heap s' = (heap s)(nxt := (heap s nxt)\<lparr>state := GTTHREAD_RUNNING\<rparr>,
          current s := (heap s (current s))
            \<lparr>ucp := None, state := GTTHREAD_DONE, retval := rv, joining := 0\<rparr>)"
    by blast
  have "descs s' = descs s" using rq s'(1-3) by (auto simp: descs_def)
  then show ?thesis by (simp add: same_ids_def s'(4) h)
qed

lemma cancel_same_ids:
  assumes "gtthread_cancel s i = Return r s'"
  shows "same_ids s s'"
proof -
  from cancel_Return [OF assms] consider
    (fail) "s' = sigprocmask_unblock (sigprocmask_block s)"
  | (ok) t where "thread_get s i = Some t"
      "ready_queue s' = ready_queue s" "zombie_queue s' = zombie_queue s @ [t]"
      "current s' = current s" "maxtid s' = maxtid s"
      "heap s' = (heap s)(t := (heap s t)\<lparr>state := GTTHREAD_CANCEL, ucp := None, joining := 0\<rparr>)"
    by blast
  then show ?thesis
  proof cases
    case fail
    then show ?thesis by (simp add: same_ids_def descs_def)
  next
    case ok
    from thread_get_Some [OF ok(1)] have "descs s' = descs s"
      using ok(2-4) by (auto simp: descs_def)
    then show ?thesis by (simp add: same_ids_def ok(5,6))
  qed
qed

lemma exit_lands_same_ids:
  assumes "lands (gtthread_exit s rv) = Some s'" and "current s \<notin> set (ready_queue s)"
  shows "same_ids s s'"
  using exit_lands [OF assms(1)]
proof
  assume "gtthread_exit s rv = Install s'"
  from exit_same_ids [OF this assms(2)] show ?thesis .
next
  assume "sigvtalrm_handler (sigprocmask_unblock (sigprocmask_block s)) = NoReturn (Switch s')"
  from handler_same_ids [OF this] show ?thesis by (simp add: same_ids_def descs_def)
qed

lemma join_loop_same_ids:
  assumes j: "join_loop s t status = Some y" and c: "continues y = Some s'"
  shows "same_ids s s'"
proof (cases "state (heap s t) = GTTHREAD_RUNNING")
  case True
  with join_loop_Some [OF j] obtain x where
    x: "sigvtalrm_handler (sigprocmask_unblock s) = NoReturn x" "y = NoReturn x" by auto
  from handler_NoReturn [OF x(1)] c x(2) have "x = Switch s'"
    by (auto simp: continues_def lands_def)
  with x(1) have "sigvtalrm_handler (sigprocmask_unblock s) = NoReturn (Switch s')" by simp
  from handler_same_ids [OF this] show ?thesis by (simp add: same_ids_def descs_def)
next
  case False
  with join_loop_Some [OF j] have "y = join_finish s t status" by simp
  with c show ?thesis
    by (auto simp: join_finish_def continues_def split: option.splits if_splits)
qed

lemma join_same_ids:
  assumes j: "gtthread_join s i status = Some y" and c: "continues y = Some s'"
  shows "same_ids s s'"
proof (cases "join_rejected s i")
  case True
  with join_rejected_fails [of s i status] j c show ?thesis
    by (simp add: continues_def)
next
  case False
  then obtain t where t: "thread_get s i = Some t"
    by (auto simp: join_rejected_def thread_get_None_iff [symmetric] simp del: Un_iff)
  let ?s1 = "s\<lparr>heap := (heap s)(current s := (heap s (current s))\<lparr>joining := tid (heap s t)\<rparr>)\<rparr>"
  from False t j have "join_loop ?s1 t status = Some y"
    by (auto simp: join_rejected_def gtthread_join_def Let_def split: if_splits)
  from join_loop_same_ids [OF this c] have "same_ids ?s1 s'" .
  then show ?thesis by (rule same_ids_trans [rotated]) simp
qed

lemma step_ids:
  assumes "step s s'" and inv: "sched_inv s"
  shows "same_ids s s' \<or> (\<exists>p f a hst. gtthread_create s p f a hst = Return 0 s')"
  using assms(1)
proof cases
  case (step_create p f a hst)
  from create_continues [OF this] show ?thesis by blast
next
  case (step_join i status y)
  from join_same_ids [OF this] show ?thesis ..
next
  case (step_join_resume t status y)
  from this(1) have "join_loop (sigprocmask_block s) t status = Some y"
    by (simp add: join_resume_def)
  from join_loop_same_ids [OF this step_join_resume(2)] show ?thesis
    by (simp add: same_ids_def descs_def)
next
  case (step_exit rv)
  from exit_lands_same_ids [OF this sched_invD(1) [OF inv]] show ?thesis ..
next
  case (step_exit_resume rv)
  then have "lands (exit_main_loop (sigprocmask_block s) rv) = Some s'"
    by (simp add: exit_main_resume_def)
  from handler_same_ids [OF exit_main_loop_lands [OF this]] show ?thesis
    by (simp add: same_ids_def descs_def)
next
  case step_yield
  from yield_continues [OF this] yield_same_ids [of s s'] show ?thesis by auto
next
  case (step_cancel i)
  from cancel_continues [OF this] cancel_same_ids [of s i _ s']
    exit_lands_same_ids [OF _ sched_invD(1) [OF inv], of 0 s']
  show ?thesis by blast
next
  case step_handler
  from handler_continues [OF this] handler_same_ids [of s s'] show ?thesis by auto
next
  case step_start_enter
  then show ?thesis by (simp add: gtthread_start_enter_def)
next
  case (step_start_finish r)
  let ?s1 = "s\<lparr>heap := (heap s)(current s := (heap s (current s))\<lparr>retval := r\<rparr>)\<rparr>"
  from step_start_finish have "lands (gtthread_exit ?s1 (retval (heap ?s1 (current ?s1)))) = Some s'"
    by (simp add: gtthread_start_finish_def Let_def)
  from exit_lands_same_ids [OF this] sched_invD(1) [OF inv] have "same_ids ?s1 s'" by simp
  then have "same_ids s s'" by (rule same_ids_trans [rotated]) simp
  then show ?thesis ..
next
  case (step_store m)
  then show ?thesis by simp
next
  case (step_sigreturn b)
  then show ?thesis by simp
qed


lemma create_ok:
  "getcontext_ret hst \<noteq> - 1 \<Longrightarrow> \<exists>s'. gtthread_create s p f a hst = Return 0 s'"
  by (simp add: gtthread_create_def Let_def malloc_def)

lemma step_keeps:
  assumes st: "step s s'" and inv: "sched_inv s"
  shows "maxtid s \<le> maxtid s'
     \<and> (\<forall>a \<in> descs s. a \<in> descs s' \<and> tid (heap s' a) = tid (heap s a))"
  using step_ids [OF st inv]
proof
  assume "same_ids s s'"
  then show ?thesis by (simp add: same_ids_def)
next
  assume "\<exists>p f a hst. gtthread_create s p f a hst = Return 0 s'"
  then obtain p f a hst where "gtthread_create s p f a hst = Return 0 s'" by blast
  note e = create_Return [OF this]
  from e have d: "descs s' = insert (brk s) (descs s)" by (auto simp: descs_def)
  have "tid (heap s' b) = tid (heap s b)" if "b \<in> descs s" for b
  proof -
    from sched_invD(11) [OF inv that] have "b \<noteq> brk s" by simp
    with e show ?thesis by simp
  qed
  with e d show ?thesis by simp
qed

text \<open>
  C9. In every state a program reaches, the identities of the descriptors are
  positive, below the counter \<open>maxtid\<close> and pairwise different; a step never
  lowers the counter, never drops a descriptor and never changes an identity;
  \<open>gtthread_create\<close>, when \<open>getcontext\<close> succeeds, returns 0, writes the
  counter's value to the out-parameter as the new identity, which is therefore
  larger than every identity assigned before, raises the counter by one, and
  puts the new RUNNING descriptor at the tail of the ready queue. The thread
  that calls \<open>gtthread_init\<close> gets identity 1.
\<close>

theorem identities_fresh:
  assumes "reachable s"
  shows "(\<forall>a \<in> descs s. 0 < tid (heap s a) \<and> tid (heap s a) < maxtid s)
     \<and> (\<forall>a \<in> descs s. \<forall>b \<in> descs s. tid (heap s a) = tid (heap s b) \<longrightarrow> a = b)
     \<and> (\<forall>s'. step s s' \<longrightarrow> maxtid s \<le> maxtid s'
            \<and> (\<forall>a \<in> descs s. a \<in> descs s' \<and> tid (heap s' a) = tid (heap s a)))
     \<and> (\<forall>p f a hst. getcontext_ret hst \<noteq> - 1 \<longrightarrow>
          (\<exists>s' t. gtthread_create s p f a hst = Return 0 s'
             \<and> mem s' p = maxtid s \<and> maxtid s' = Suc (maxtid s)
             \<and> t \<notin> descs s \<and> ready_queue s' = ready_queue s @ [t]
             \<and> tid (heap s' t) = maxtid s \<and> state (heap s' t) = GTTHREAD_RUNNING))
     \<and> (\<forall>period hst h m s0. gtthread_init period hst (program_start h m) = Return () s0 \<longrightarrow>
          tid (heap s0 (current s0)) = 1 \<and> maxtid s0 = 2)"
proof -
  note inv = reachable_inv [OF assms]
  note D = sched_invD [OF inv]
  have a1: "\<forall>a \<in> descs s. 0 < tid (heap s a) \<and> tid (heap s a) < maxtid s"
    using D(9,10) by blast
  have a2: "\<forall>a \<in> descs s. \<forall>b \<in> descs s. tid (heap s a) = tid (heap s b) \<longrightarrow> a = b"
    using D(12) by blast
  have a3: "\<forall>s'. step s s' \<longrightarrow> maxtid s \<le> maxtid s'
            \<and> (\<forall>a \<in> descs s. a \<in> descs s' \<and> tid (heap s' a) = tid (heap s a))"
    using step_keeps [OF _ inv] by blast
  have a4: "\<exists>s' t. gtthread_create s p f a hst = Return 0 s'
             \<and> mem s' p = maxtid s \<and> maxtid s' = Suc (maxtid s)
             \<and> t \<notin> descs s \<and> ready_queue s' = ready_queue s @ [t]
             \<and> tid (heap s' t) = maxtid s \<and> state (heap s' t) = GTTHREAD_RUNNING"
    if "getcontext_ret hst \<noteq> - 1" for p f a hst
  proof -
    from create_ok [OF that] obtain s' where c: "gtthread_create s p f a hst = Return 0 s'" by blast
    note e = create_Return [OF c]
    from D(11) [of "brk s"] have "brk s \<notin> descs s" by auto
    with c e show ?thesis by (intro exI [of _ s'] exI [of _ "brk s"]) simp
  qed
  have a5: "\<forall>period hst h m s0. gtthread_init period hst (program_start h m) = Return () s0 \<longrightarrow>
          tid (heap s0 (current s0)) = 1 \<and> maxtid s0 = 2"
    by (auto simp: gtthread_init_def program_start_def malloc_def Let_def sigprocmask_unblock_def
        split: if_splits)
  from a1 a2 a3 a4 a5 show ?thesis by blast
qed

theorem identities_fresh_witness:
  "reachable st_one
   \<and> descs st_one = {1, 2} \<and> tid (heap st_one 1) = 1 \<and> tid (heap st_one 2) = 2
   \<and> maxtid st_one = 3
   \<and> step st_one st_two \<and> maxtid st_one \<le> maxtid st_two
   \<and> tid (heap st_two 1) = 1 \<and> tid (heap st_two 2) = 2
   \<and> getcontext_ret host_ok \<noteq> - 1
   \<and> gtthread_create st_one 101 8 42 host_ok = Return 0 st_two
   \<and> mem st_two 101 = 3 \<and> maxtid st_two = 4
   \<and> 4 \<notin> descs st_one \<and> ready_queue st_two = ready_queue st_one @ [4]
   \<and> tid (heap st_two 4) = 3 \<and> state (heap st_two 4) = GTTHREAD_RUNNING
   \<and> gtthread_init 50000 host_ok boot = Return () st_init
   \<and> tid (heap st_init (current st_init)) = 1"
proof -
  have st: "step st_one st_two"
    by (rule step_create [of _ 101 8 42 host_ok]) (simp add: run_create_B continues_def)
  have d: "descs st_one = {1, 2}" by (auto simp: descs_def st_defs)
  from identities_fresh [OF reachable_st_one] st d run_create_B run_init reachable_st_one
  show ?thesis by (simp add: st_defs)
qed

subsection \<open>More example states, and that a program reaches them\<close>

lemma run_B_cancels_A: "gtthread_cancel st_B_joined 2 = Return 0 st_B_cancelled_A"
  by (simp add: run_defs st_defs fun_eq_iff)

lemma reachable_st_two: "reachable st_two"
  by (rule reach_step [OF reachable_st_one], rule step_create [of _ 101 8 42 host_ok])
     (simp add: run_create_B continues_def)

lemma reachable_st_A: "reachable st_A"
  by (rule reach_step [OF reachable_st_two], rule step_yield)
     (simp add: run_yield_main continues_def lands_def)

lemma reachable_st_B_joined: "reachable st_B_joined"
  by (rule reach_step [OF reachable_st_A], rule step_join [OF run_A_joins_B])
     (simp add: continues_def lands_def)

lemma reachable_st_A_cancelled_main: "reachable st_A_cancelled_main"
  by (rule reach_step [OF reachable_st_A], rule step_cancel [of _ 1])
     (simp only: run_A_cancels_main continues_def outcome.case)

lemma reachable_st_B_turn: "reachable st_B_turn"
  by (rule reach_step [OF reachable_st_A_cancelled_main], rule step_yield)
     (simp add: run_A_yields continues_def lands_def)

lemma reachable_st_A_turn: "reachable st_A_turn"
  by (rule reach_step [OF reachable_st_B_turn], rule step_handler)
     (simp add: run_timer continues_def lands_def)

lemma reachable_st_B_last: "reachable st_B_last"
  by (rule reach_step [OF reachable_st_A_turn], rule step_exit [of _ 42])
     (simp add: run_A_exits lands_def)

subsection \<open>When gtthread\_exit ends the process\<close>

lemma exit_empty: "ready_queue s = [] \<Longrightarrow> gtthread_exit s rv = Exit (Long rv)"
  by (simp add: gtthread_exit_def Let_def steque_isempty_def)

lemma exit_main:
  "ready_queue s \<noteq> [] \<Longrightarrow> tid (heap s (current s)) = 1 \<Longrightarrow>
   gtthread_exit s rv = exit_main_loop (sigprocmask_block s) rv"
  by (simp add: gtthread_exit_def Let_def steque_isempty_def)

lemma exit_not_Exit:
  "ready_queue s \<noteq> [] \<Longrightarrow> tid (heap s (current s)) \<noteq> 1 \<Longrightarrow> gtthread_exit s rv \<noteq> Exit e"
  by (auto simp: gtthread_exit_def Let_def setcontext_def steque_isempty_def
      split: option.splits if_splits)

lemma handler_not_Exit: "sigvtalrm_handler s = NoReturn x \<Longrightarrow> x \<noteq> Exit e"
  using handler_NoReturn [of s x] by auto

text \<open>
  C2, as the code has it. With the ready queue empty, \<open>gtthread_exit\<close> ends
  the process at once, whoever calls it. With a descriptor in the ready queue,
  a caller other than the initial thread never ends the process; the initial
  thread calls the handler, which switches away (or faults) and does not end
  the process, and each time the initial thread is installed again
  (\<open>exit_main_resume\<close>) it ends the process if the ready queue is empty by
  then and calls the handler again if it is not.
\<close>

theorem gtthread_exit_process_end:
  "(ready_queue s = [] \<longrightarrow>
      gtthread_exit s rv = Exit (Long rv) \<and> exit_main_resume s rv = Exit (Long rv))
   \<and> (ready_queue s \<noteq> [] \<and> tid (heap s (current s)) \<noteq> 1 \<longrightarrow>
        (\<forall>e. gtthread_exit s rv \<noteq> Exit e))
   \<and> (ready_queue s \<noteq> [] \<longrightarrow>
        (\<exists>x. sigvtalrm_handler (sigprocmask_unblock (sigprocmask_block s)) = NoReturn x
           \<and> (\<forall>e. x \<noteq> Exit e)
           \<and> exit_main_resume s rv = x
           \<and> (tid (heap s (current s)) = 1 \<longrightarrow> gtthread_exit s rv = x)))"
proof -
  have a: "gtthread_exit s rv = Exit (Long rv) \<and> exit_main_resume s rv = Exit (Long rv)"
    if "ready_queue s = []"
    using that by (simp add: exit_empty exit_main_resume_def exit_main_loop_empty)
  have b: "\<forall>e. gtthread_exit s rv \<noteq> Exit e"
    if "ready_queue s \<noteq> []" "tid (heap s (current s)) \<noteq> 1"
    using exit_not_Exit [OF that] by blast
  have c: "\<exists>x. sigvtalrm_handler (sigprocmask_unblock (sigprocmask_block s)) = NoReturn x
           \<and> (\<forall>e. x \<noteq> Exit e)
           \<and> exit_main_resume s rv = x
           \<and> (tid (heap s (current s)) = 1 \<longrightarrow> gtthread_exit s rv = x)"
    if ne: "ready_queue s \<noteq> []"
  proof -
    from ne have "ready_queue (sigprocmask_block s) \<noteq> []" by simp
    from exit_main_loop_nonempty [OF this, of rv] obtain x where
      x: "sigvtalrm_handler (sigprocmask_unblock (sigprocmask_block s)) = NoReturn x"
        "exit_main_loop (sigprocmask_block s) rv = x" by blast
    from handler_not_Exit [OF x(1)] have "\<forall>e. x \<noteq> Exit e" by blast
    with x ne show ?thesis by (auto simp: exit_main_resume_def exit_main)
  qed
  from a b c show ?thesis by blast
qed

theorem gtthread_exit_process_end_witness:
  "ready_queue st_B_last = [] \<and> gtthread_exit st_B_last 5 = Exit (Long 5)
   \<and> ready_queue st_init = [] \<and> exit_main_resume st_init 9 = Exit (Long 9)
   \<and> ready_queue st_A_turn \<noteq> [] \<and> tid (heap st_A_turn (current st_A_turn)) \<noteq> 1
   \<and> gtthread_exit st_A_turn 42 = Install st_B_last
   \<and> ready_queue st_two \<noteq> [] \<and> tid (heap st_two (current st_two)) = 1
   \<and> sigvtalrm_handler (sigprocmask_unblock (sigprocmask_block st_two)) = NoReturn (Switch st_A)
   \<and> gtthread_exit st_two 9 = Switch st_A
   \<and> exit_main_resume st_two 9 = Switch st_A"
proof -
  have h: "sigvtalrm_handler (sigprocmask_unblock (sigprocmask_block st_two)) = NoReturn (Switch st_A)"
    by (simp add: run_defs st_defs fun_eq_iff)
  have q: "ready_queue st_B_last = []" "ready_queue st_init = []" "ready_queue st_A_turn \<noteq> []"
    "tid (heap st_A_turn (current st_A_turn)) \<noteq> 1" "ready_queue st_two \<noteq> []"
    "tid (heap st_two (current st_two)) = 1"
    by (simp_all add: st_defs)
  from gtthread_exit_process_end [of st_B_last 5] gtthread_exit_process_end [of st_init 9]
    gtthread_exit_process_end [of st_A_turn 42] gtthread_exit_process_end [of st_two 9]
    h q run_A_exits
  show ?thesis by simp
qed

text \<open>
  C2 as stated fails: in \<open>st_B_last\<close> the initial thread has been cancelled and
  dropped from the ready queue, thread B (identity 3) is the only one left, and
  its \<open>gtthread_exit\<close> ends the process.
\<close>

theorem exit_of_last_thread_ends_process:
  "reachable st_B_last
   \<and> tid (heap st_B_last (current st_B_last)) = 3
   \<and> gtthread_exit st_B_last 5 = Exit (Long 5)"
proof -
  have "ready_queue st_B_last = []" by (simp add: st_defs)
  then have "gtthread_exit st_B_last 5 = Exit (Long 5)" by (rule exit_empty)
  moreover have "tid (heap st_B_last (current st_B_last)) = 3" by (simp add: st_defs)
  ultimately show ?thesis using reachable_st_B_last by simp
qed

subsection \<open>What gtthread\_join returns\<close>

lemma scan_cong: "(\<And>a. tid (h' a) = tid (h a)) \<Longrightarrow> scan h' i q = scan h i q"
  by (induction q) auto

lemma thread_get_joining [simp]:
  "thread_get (s\<lparr>heap := (heap s)(c := (heap s c)\<lparr>joining := j\<rparr>)\<rparr>) i = thread_get s i"
proof -
  have "\<And>q. scan ((heap s)(c := (heap s c)\<lparr>joining := j\<rparr>)) i q = scan (heap s) i q"
    by (rule scan_cong [of "(heap s)(c := (heap s c)\<lparr>joining := j\<rparr>)" "heap s"]) simp
  then show ?thesis by (simp add: thread_get_def cong: option.case_cong)
qed

lemma thread_get_mem [simp]: "thread_get (s\<lparr>mem := m\<rparr>) i = thread_get s i"
  by (simp add: thread_get_def cong: option.case_cong)

lemma join_finish_Return:
  assumes "state (heap s t) \<noteq> GTTHREAD_RUNNING"
  shows "join_finish s t status =
     Return 0 (case status of None \<Rightarrow> s | Some p \<Rightarrow> s\<lparr>mem := (mem s)(p := join_value s t)\<rparr>)"
  using assms
  by (cases "state (heap s t)") (auto simp: join_finish_def join_value_def split: option.splits)

text \<open>What a call of \<open>gtthread_join\<close> that is not rejected does.\<close>

lemma join_accepted:
  assumes "\<not> join_rejected s i"
  shows "\<exists>t. thread_get s i = Some t \<and> t \<noteq> current s
     \<and> joining (heap s t) \<noteq> tid (heap s (current s))
     \<and> gtthread_join s i status =
         join_loop (s\<lparr>heap := (heap s)(current s := (heap s (current s))\<lparr>joining := i\<rparr>)\<rparr>) t status"
proof -
  from assms obtain t where t: "thread_get s i = Some t"
    by (auto simp: join_rejected_def thread_get_None_iff [symmetric] simp del: Un_iff)
  from thread_get_Some [OF t] have ti: "tid (heap s t) = i" by simp
  from assms have ne: "i \<noteq> tid (heap s (current s))" by (simp add: join_rejected_def)
  with ti have "t \<noteq> current s" by auto
  moreover from assms t have "joining (heap s t) \<noteq> tid (heap s (current s))"
    by (simp add: join_rejected_def)
  ultimately show ?thesis using t ti ne
    by (simp add: gtthread_join_def Let_def)
qed

lemma join_Return_0:
  assumes "gtthread_join s i status = Some (Return 0 s')"
  shows "\<exists>t. thread_get s i = Some t \<and> t \<noteq> current s
     \<and> joining (heap s t) \<noteq> tid (heap s (current s))
     \<and> i \<noteq> tid (heap s (current s))
     \<and> state (heap s t) \<noteq> GTTHREAD_RUNNING
     \<and> s' = (case status of
               None \<Rightarrow> s\<lparr>heap := (heap s)(current s := (heap s (current s))\<lparr>joining := i\<rparr>)\<rparr>
             | Some p \<Rightarrow> s\<lparr>heap := (heap s)(current s := (heap s (current s))\<lparr>joining := i\<rparr>),
                           mem := (mem s)(p := join_value s t)\<rparr>)"
proof -
  have nr: "\<not> join_rejected s i"
  proof
    assume "join_rejected s i"
    with join_rejected_fails [of s i status] assms show False by simp
  qed
  let ?s1 = "s\<lparr>heap := (heap s)(current s := (heap s (current s))\<lparr>joining := i\<rparr>)\<rparr>"
  from join_accepted [OF nr, of status] assms obtain t where
    t: "thread_get s i = Some t" "t \<noteq> current s"
      "joining (heap s t) \<noteq> tid (heap s (current s))"
      "join_loop ?s1 t status = Some (Return 0 s')"
    by auto
  from join_loop_Return [OF t(4)] have r: "state (heap ?s1 t) \<noteq> GTTHREAD_RUNNING"
    and f: "join_finish ?s1 t status = Return 0 s'" by simp_all
  from r t(2) have r': "state (heap s t) \<noteq> GTTHREAD_RUNNING" by simp
  from t(2) have jv: "join_value ?s1 t = join_value s t" by (simp add: join_value_def)
  from f join_finish_Return [OF r, of status] jv
  have "s' = (case status of None \<Rightarrow> ?s1 | Some p \<Rightarrow> ?s1\<lparr>mem := (mem s)(p := join_value s t)\<rparr>)"
    by (simp split: option.splits)
  moreover from nr have "i \<noteq> tid (heap s (current s))" by (simp add: join_rejected_def)
  ultimately show ?thesis using t(1-3) r' by (auto split: option.splits)
qed

text \<open>
  C7. When \<open>gtthread_join\<close> returns 0, at once or after the caller was
  suspended in the loop and installed again (\<open>join_resume\<close>), the target is
  DONE or CANCEL in the state it returns in; with a destination that is not
  \<open>NULL\<close> the destination holds the value of \<open>(void*) GTTHREAD_CANCEL\<close> if
  the target is CANCEL and its stored return value if it is DONE; and a second
  join on the same identity, from the state the first returned in, returns 0
  again and writes the same value.
\<close>

theorem gtthread_join_result:
  "(gtthread_join s thread status = Some (Return 0 s') \<longrightarrow>
      (\<exists>t. thread_get s thread = Some t
         \<and> (state (heap s' t) = GTTHREAD_DONE \<or> state (heap s' t) = GTTHREAD_CANCEL)
         \<and> (\<forall>p. status = Some p \<longrightarrow>
               mem s' p = (if state (heap s' t) = GTTHREAD_CANCEL then state_code GTTHREAD_CANCEL
                           else retval (heap s' t))
               \<and> (\<forall>q. \<exists>s''. gtthread_join s' thread (Some q) = Some (Return 0 s'')
                        \<and> mem s'' q = mem s' p))))
   \<and> (join_resume s t status = Some (Return r s') \<longrightarrow>
        r = 0 \<and> (state (heap s' t) = GTTHREAD_DONE \<or> state (heap s' t) = GTTHREAD_CANCEL)
        \<and> (\<forall>p. status = Some p \<longrightarrow>
              mem s' p = (if state (heap s' t) = GTTHREAD_CANCEL then state_code GTTHREAD_CANCEL
                          else retval (heap s' t))))"
proof -
  have a: "\<exists>t. thread_get s thread = Some t
         \<and> (state (heap s' t) = GTTHREAD_DONE \<or> state (heap s' t) = GTTHREAD_CANCEL)
         \<and> (\<forall>p. status = Some p \<longrightarrow>
               mem s' p = (if state (heap s' t) = GTTHREAD_CANCEL then state_code GTTHREAD_CANCEL
                           else retval (heap s' t))
               \<and> (\<forall>q. \<exists>s''. gtthread_join s' thread (Some q) = Some (Return 0 s'')
                        \<and> mem s'' q = mem s' p))"
    if j: "gtthread_join s thread status = Some (Return 0 s')"
  proof -
    let ?s1 = "s\<lparr>heap := (heap s)(current s := (heap s (current s))\<lparr>joining := thread\<rparr>)\<rparr>"
    from join_Return_0 [OF j] obtain t where
      t: "thread_get s thread = Some t" "t \<noteq> current s"
        "joining (heap s t) \<noteq> tid (heap s (current s))"
        "thread \<noteq> tid (heap s (current s))"
        "state (heap s t) \<noteq> GTTHREAD_RUNNING"
      and s': "s' = (case status of None \<Rightarrow> ?s1
             | Some p \<Rightarrow> ?s1\<lparr>mem := (mem s)(p := join_value s t)\<rparr>)"
      by blast
    from s' t(2) have h: "heap s' t = heap s t" "current s' = current s"
      "tid (heap s' (current s')) = tid (heap s (current s))"
      by (auto split: option.splits)
    from s' have tg: "thread_get s' thread = Some t"
      using t(1) by (auto split: option.splits)
    from t(5) h(1) have fin: "state (heap s' t) = GTTHREAD_DONE \<or> state (heap s' t) = GTTHREAD_CANCEL"
      by (cases "state (heap s t)") auto
    have jv: "join_value s' t = join_value s t" by (simp add: join_value_def h(1))
    have rest: "mem s' p = join_value s' t
         \<and> (\<forall>q. \<exists>s''. gtthread_join s' thread (Some q) = Some (Return 0 s'')
                        \<and> mem s'' q = mem s' p)"
      if st: "status = Some p" for p
    proof -
      from s' st have m: "mem s' p = join_value s t" by simp
      have nr: "\<not> join_rejected s' thread"
        using tg t(3,4) h by (simp add: join_rejected_def thread_get_None_iff [symmetric] del: Un_iff)
      have "\<exists>s''. gtthread_join s' thread (Some q) = Some (Return 0 s'') \<and> mem s'' q = mem s' p"
        for q
      proof -
        let ?s2 = "s'\<lparr>heap := (heap s')(current s' := (heap s' (current s'))\<lparr>joining := thread\<rparr>)\<rparr>"
        from join_accepted [OF nr, of "Some q"] tg
        have g: "gtthread_join s' thread (Some q) = join_loop ?s2 t (Some q)" by simp
        from t(2) h have ht: "heap ?s2 t = heap s t" by simp
        with t(5) have r2: "state (heap ?s2 t) \<noteq> GTTHREAD_RUNNING" by simp
        from ht have jv2: "join_value ?s2 t = join_value s t" by (simp add: join_value_def)
        from g join_loop_terminal [OF r2, of "Some q"] join_finish_Return [OF r2, of "Some q"]
        have "gtthread_join s' thread (Some q)
              = Some (Return 0 (?s2\<lparr>mem := (mem ?s2)(q := join_value ?s2 t)\<rparr>))"
          by simp
        then show ?thesis using jv2 m by auto
      qed
      with m jv show ?thesis by simp
    qed
    from t(1) fin rest show ?thesis
      unfolding join_value_def by blast
  qed
  have b: "r = 0 \<and> (state (heap s' t) = GTTHREAD_DONE \<or> state (heap s' t) = GTTHREAD_CANCEL)
        \<and> (\<forall>p. status = Some p \<longrightarrow>
              mem s' p = (if state (heap s' t) = GTTHREAD_CANCEL then state_code GTTHREAD_CANCEL
                          else retval (heap s' t)))"
    if j: "join_resume s t status = Some (Return r s')"
  proof -
    let ?s = "sigprocmask_block s"
    from j have l: "join_loop ?s t status = Some (Return r s')" by (simp add: join_resume_def)
    from join_loop_Return [OF l] have r: "state (heap ?s t) \<noteq> GTTHREAD_RUNNING"
      and f: "join_finish ?s t status = Return r s'" by simp_all
    from f join_finish_Return [OF r, of status]
    have e: "r = 0" "s' = (case status of None \<Rightarrow> ?s
        | Some p \<Rightarrow> ?s\<lparr>mem := (mem ?s)(p := join_value ?s t)\<rparr>)" by simp_all
    from e(2) have h: "heap s' = heap s" by (auto split: option.splits)
    from r h have fin: "state (heap s' t) = GTTHREAD_DONE \<or> state (heap s' t) = GTTHREAD_CANCEL"
      by (cases "state (heap s t)") auto
    from e(2) h have "\<forall>p. status = Some p \<longrightarrow> mem s' p = join_value s' t"
      by (auto simp: join_value_def)
    with e(1) fin show ?thesis unfolding join_value_def by blast
  qed
  from a b show ?thesis by blast
qed

lemma run_main_joins_cancelled:
  "gtthread_join st_cancelled 2 (Some 200) = Some (Return 0 st_main_joined)"
  by (subst gtthread_join_def, subst join_loop.simps)
     (simp add: run_defs st_defs join_finish_def fun_eq_iff)

lemma run_B_joins_done:
  "gtthread_join st_B_last 2 (Some 200) = Some (Return 0 st_B_joined_done)"
  by (subst gtthread_join_def, subst join_loop.simps)
     (simp add: run_defs st_defs join_finish_def fun_eq_iff)

lemma run_main_resumes_join:
  "join_resume st_cancelled 2 (Some 200)
   = Some (Return 0 (st_cancelled\<lparr>blocked := True, mem := (mem st_cancelled)(200 := 1)\<rparr>))"
  by (subst join_resume_def, subst join_loop.simps)
     (simp add: run_defs st_defs join_finish_def fun_eq_iff)

theorem gtthread_join_result_witness:
  "gtthread_join st_cancelled 2 (Some 200) = Some (Return 0 st_main_joined)
   \<and> thread_get st_cancelled 2 = Some 2
   \<and> state (heap st_main_joined 2) = GTTHREAD_CANCEL
   \<and> mem st_main_joined 200 = 1
   \<and> (\<exists>s''. gtthread_join st_main_joined 2 (Some 300) = Some (Return 0 s'') \<and> mem s'' 300 = 1)
   \<and> gtthread_join st_B_last 2 (Some 200) = Some (Return 0 st_B_joined_done)
   \<and> thread_get st_B_last 2 = Some 2
   \<and> state (heap st_B_joined_done 2) = GTTHREAD_DONE
   \<and> mem st_B_joined_done 200 = 42
   \<and> (\<exists>s''. gtthread_join st_B_joined_done 2 (Some 300) = Some (Return 0 s'') \<and> mem s'' 300 = 42)
   \<and> join_resume st_cancelled 2 (Some 200)
       = Some (Return 0 (st_cancelled\<lparr>blocked := True, mem := (mem st_cancelled)(200 := 1)\<rparr>))"
proof -
  have g: "thread_get st_cancelled 2 = Some 2" "thread_get st_B_last 2 = Some 2"
    by (simp_all add: thread_get_def st_defs)
  have v: "state (heap st_main_joined 2) = GTTHREAD_CANCEL" "mem st_main_joined 200 = 1"
    "state (heap st_B_joined_done 2) = GTTHREAD_DONE" "mem st_B_joined_done 200 = 42"
    by (simp_all add: st_defs)
  from gtthread_join_result [of st_cancelled 2 "Some 200" st_main_joined]
    gtthread_join_result [of st_B_last 2 "Some 200" st_B_joined_done]
    gtthread_join_result [of st_cancelled 2 "Some 200" _ 2 0]
    run_main_joins_cancelled run_B_joins_done run_main_resumes_join g v
  show ?thesis by simp
qed

subsection \<open>gtthread\_exit clears the joining field\<close>



subsection \<open>What a step does to the descriptors\<close>

text \<open>
  The handler sets the state of the descriptor it switches to, which is RUNNING
  already; \<open>gtthread_exit\<close> writes to the descriptor of the caller only.
\<close>

lemma kept_heap: "heap s' = heap s \<Longrightarrow> kept s s' a"
  by (simp add: kept_def)

lemma kept_heap_trans: "kept s s1 a \<Longrightarrow> heap s' = heap s1 \<Longrightarrow> kept s s' a"
  by (simp add: kept_def)

lemma handler_heap:
  assumes inv: "sched_inv s" and sw: "sigvtalrm_handler s = NoReturn (Switch s')"
  shows "heap s' = heap s"
proof -
  from handler_Switch [OF sw] obtain pre nxt rest where
    rq: "ready_queue s = pre @ nxt # rest"
    and nc: "state (heap s nxt) \<noteq> GTTHREAD_CANCEL"
    and h: "heap s' = (heap s)(nxt := (heap s nxt)\<lparr>state := GTTHREAD_RUNNING\<rparr>)"
    by blast
  from rq have "nxt \<in> set (ready_queue s)" by simp
  from sched_invD(7) [OF inv this] nc have run: "state (heap s nxt) = GTTHREAD_RUNNING"
    by (cases "state (heap s nxt)") auto
  have "(heap s nxt)\<lparr>state := GTTHREAD_RUNNING\<rparr> = heap s nxt"
    by (subst run [symmetric]) simp
  with h show ?thesis by simp
qed

lemma exit_heap:
  assumes inv: "sched_inv s" and ex: "gtthread_exit s rv = Install s'"
  shows "heap s' = (heap s)(current s := (heap s (current s))
            \<lparr>ucp := None, state := GTTHREAD_DONE, retval := rv, joining := 0\<rparr>)"
proof -
  note D = sched_invD [OF inv]
  from exit_Install [OF ex D(1)] obtain nxt rest where
    rq: "ready_queue s = nxt # rest"
    and u: "ucp (heap s nxt) \<noteq> None"
    and h: "heap s' = (heap s)(nxt := (heap s nxt)\<lparr>state := GTTHREAD_RUNNING\<rparr>,
          current s := (heap s (current s))
            \<lparr>ucp := None, state := GTTHREAD_DONE, retval := rv, joining := 0\<rparr>)"
    by blast
  have nr: "nxt \<in> set (ready_queue s)" by (simp add: rq)
  from D(6) [of nxt] u have nz: "nxt \<notin> set (zombie_queue s)" by blast
  have run: "state (heap s nxt) = GTTHREAD_RUNNING"
    by (rule ready_not_zombie_RUNNING [OF inv nr nz])
  have "(heap s nxt)\<lparr>state := GTTHREAD_RUNNING\<rparr> = heap s nxt"
    by (subst run [symmetric]) simp
  with h show ?thesis by simp
qed

text \<open>
  A step keeps every descriptor, or it is an exit of the running thread, a
  cancellation of another thread, or a creation.
\<close>

lemma exit_lands_effect:
  assumes inv: "sched_inv s0" and l: "lands (gtthread_exit s0 rv) = Some s'"
    and c: "current s0 = current s" and k: "\<And>a. kept s s0 a"
  shows "(\<forall>a. kept s s' a)
     \<or> (gtthread_exit s0 rv = Install s' \<and> (\<forall>a. a \<noteq> current s \<longrightarrow> kept s s' a)
        \<and> state (heap s' (current s)) = GTTHREAD_DONE \<and> ucp (heap s' (current s)) = None)"
  using exit_lands [OF l]
proof
  assume ex: "gtthread_exit s0 rv = Install s'"
  note h = exit_heap [OF inv ex]
  have "kept s s' a" if "a \<noteq> current s" for a
    using that c k [of a] by (simp add: kept_def h)
  moreover have "state (heap s' (current s)) = GTTHREAD_DONE" "ucp (heap s' (current s)) = None"
    using c by (simp_all add: h)
  ultimately show ?thesis using ex by blast
next
  assume "sigvtalrm_handler (sigprocmask_unblock (sigprocmask_block s0)) = NoReturn (Switch s')"
  moreover from inv have "sched_inv (sigprocmask_unblock (sigprocmask_block s0))" by simp
  ultimately have "heap s' = heap (sigprocmask_unblock (sigprocmask_block s0))"
    by (rule handler_heap [rotated])
  then have "heap s' = heap s0" by simp
  with k have "\<forall>a. kept s s' a" by (auto intro: kept_heap_trans)
  then show ?thesis ..
qed

lemma join_loop_effect:
  assumes inv: "sched_inv s" and j: "join_loop s t status = Some y" and c: "continues y = Some s'"
  shows "heap s' = heap s"
proof (cases "state (heap s t) = GTTHREAD_RUNNING")
  case True
  with join_loop_Some [OF j] obtain x where
    x: "sigvtalrm_handler (sigprocmask_unblock s) = NoReturn x" "y = NoReturn x" by auto
  from handler_NoReturn [OF x(1)] c x(2) have "x = Switch s'"
    by (auto simp: continues_def lands_def)
  with x(1) have "sigvtalrm_handler (sigprocmask_unblock s) = NoReturn (Switch s')" by simp
  moreover from inv have "sched_inv (sigprocmask_unblock s)" by simp
  ultimately have "heap s' = heap (sigprocmask_unblock s)" by (rule handler_heap [rotated])
  then show ?thesis by simp
next
  case False
  with join_loop_Some [OF j] have "y = join_finish s t status" by simp
  with c show ?thesis
    by (auto simp: join_finish_def continues_def split: option.splits if_splits)
qed

lemma join_effect:
  assumes inv: "sched_inv s" and j: "gtthread_join s i status = Some y"
    and c: "continues y = Some s'"
  shows "kept s s' a"
proof (cases "join_rejected s i")
  case True
  with join_rejected_fails [of s i status] j c show ?thesis
    by (simp add: continues_def kept_def)
next
  case False
  then obtain t where t: "thread_get s i = Some t"
    by (auto simp: join_rejected_def thread_get_None_iff [symmetric] simp del: Un_iff)
  let ?s1 = "s\<lparr>heap := (heap s)(current s := (heap s (current s))\<lparr>joining := tid (heap s t)\<rparr>)\<rparr>"
  from thread_get_Some [OF t] have "t \<in> descs s" by (auto simp: descs_def)
  from sched_invD(9) [OF inv this] have pos: "tid (heap s t) \<noteq> 0" by simp
  from False t j have "join_loop ?s1 t status = Some y"
    by (auto simp: join_rejected_def gtthread_join_def Let_def split: if_splits)
  from join_loop_effect [OF _ this c] inv have "heap s' = heap ?s1" by simp
  with pos show ?thesis by (simp add: kept_def)
qed

lemma step_effect:
  assumes "step s s'" and inv: "sched_inv s"
  shows "(\<forall>a. kept s s' a) \<or> exit_effect s s' \<or> cancel_effect s s'
         \<or> (\<exists>p f a hst. gtthread_create s p f a hst = Return 0 s')"
  using assms(1)
proof cases
  case (step_create p f a hst)
  from create_continues [OF this] show ?thesis by blast
next
  case (step_join i status y)
  from join_effect [OF inv this] show ?thesis by blast
next
  case (step_join_resume t status y)
  from this(1) have "join_loop (sigprocmask_block s) t status = Some y"
    by (simp add: join_resume_def)
  from join_loop_effect [OF _ this step_join_resume(2)] inv have "heap s' = heap s" by simp
  then show ?thesis by (simp add: kept_def)
next
  case (step_exit rv)
  from exit_lands_effect [OF inv this refl] show ?thesis
    by (auto simp: kept_def exit_effect_def)
next
  case (step_exit_resume rv)
  then have "lands (exit_main_loop (sigprocmask_block s) rv) = Some s'"
    by (simp add: exit_main_resume_def)
  from exit_main_loop_lands [OF this]
  have "sigvtalrm_handler (sigprocmask_unblock (sigprocmask_block s)) = NoReturn (Switch s')" .
  moreover from inv have "sched_inv (sigprocmask_unblock (sigprocmask_block s))" by simp
  ultimately have "heap s' = heap (sigprocmask_unblock (sigprocmask_block s))"
    by (rule handler_heap [rotated])
  then show ?thesis by (simp add: kept_def)
next
  case step_yield
  from yield_continues [OF this] show ?thesis
  proof
    assume "s' = sigprocmask_block s" then show ?thesis by (simp add: kept_def)
  next
    assume "gtthread_yield s = NoReturn (Switch s')"
    from yield_Switch [OF this] have "heap s' = heap s" by blast
    then show ?thesis by (simp add: kept_def)
  qed
next
  case (step_cancel i)
  from cancel_continues [OF this] show ?thesis
  proof
    assume "\<exists>r. gtthread_cancel s i = Return r s'"
    then obtain r where r: "gtthread_cancel s i = Return r s'" ..
    from cancel_Return [OF r] consider
      (fail) "s' = sigprocmask_unblock (sigprocmask_block s)"
    | (ok) t where "r = 0" "thread_get s i = Some t" "state (heap s t) = GTTHREAD_RUNNING"
        "heap s' = (heap s)(t := (heap s t)\<lparr>state := GTTHREAD_CANCEL, ucp := None, joining := 0\<rparr>)"
      by blast
    then show ?thesis
    proof cases
      case fail
      then show ?thesis by (simp add: kept_def)
    next
      case ok
      from thread_get_Some [OF ok(2)] sched_invD(5) [OF inv, of t] ok(3)
      have "t \<in> set (ready_queue s)" by auto
      with sched_invD(1) [OF inv] have "t \<noteq> current s" by auto
      moreover have "\<forall>a. a \<noteq> t \<longrightarrow> kept s s' a" by (simp add: kept_def ok(4))
      moreover have "state (heap s' t) = GTTHREAD_CANCEL" "ucp (heap s' t) = None"
        by (simp_all add: ok(4))
      ultimately have "cancel_effect s s'"
        using r ok(1-3) unfolding cancel_effect_def by blast
      then show ?thesis by blast
    qed
  next
    assume "lands (gtthread_exit s 0) = Some s'"
    from exit_lands_effect [OF inv this refl] show ?thesis
      by (auto simp: kept_def exit_effect_def)
  qed
next
  case step_handler
  from handler_continues [OF this] show ?thesis
  proof
    assume "s' = sigprocmask_block s" then show ?thesis by (simp add: kept_def)
  next
    assume "sigvtalrm_handler s = NoReturn (Switch s')"
    from handler_heap [OF inv this] show ?thesis by (simp add: kept_def)
  qed
next
  case step_start_enter
  then show ?thesis by (simp add: gtthread_start_enter_def kept_def)
next
  case (step_start_finish r)
  let ?s1 = "s\<lparr>heap := (heap s)(current s := (heap s (current s))\<lparr>retval := r\<rparr>)\<rparr>"
  from step_start_finish have l: "lands (gtthread_exit ?s1 (retval (heap ?s1 (current ?s1)))) = Some s'"
    by (simp add: gtthread_start_finish_def Let_def)
  from inv have i1: "sched_inv ?s1" by simp
  have f: "gtthread_start_finish s r = gtthread_exit ?s1 (retval (heap ?s1 (current ?s1)))"
    by (simp add: gtthread_start_finish_def Let_def)
  have "(\<forall>a. kept s s' a)
     \<or> (gtthread_exit ?s1 (retval (heap ?s1 (current ?s1))) = Install s'
        \<and> (\<forall>a. a \<noteq> current s \<longrightarrow> kept s s' a)
        \<and> state (heap s' (current s)) = GTTHREAD_DONE \<and> ucp (heap s' (current s)) = None)"
    by (rule exit_lands_effect [OF i1 l]) (simp_all add: kept_def)
  with f have "(\<forall>a. kept s s' a) \<or> exit_effect s s'"
    unfolding exit_effect_def by metis
  then show ?thesis by blast
next
  case (step_store m)
  then show ?thesis by (simp add: kept_def)
next
  case (step_sigreturn b)
  then show ?thesis by (simp add: kept_def)
qed

subsection \<open>A RUNNING descriptor has a context\<close>

lemma init_ctx:
  assumes "gtthread_init period hst (program_start h m) = Return () s"
  shows "ctx_inv s"
  using assms
  by (auto simp: ctx_inv_def descs_def gtthread_init_def program_start_def malloc_def
      steque_init_def Let_def sigprocmask_unblock_def split: if_splits)

lemma step_ctx:
  assumes st: "step s s'" and inv: "sched_inv s" and c: "ctx_inv s"
  shows "ctx_inv s'"
proof -
  have cr: "ctx_inv s'" if "gtthread_create s p f a hst = Return 0 s'" for p f a hst
  proof -
    note e = create_Return [OF that]
    from e have d: "descs s' = insert (brk s) (descs s)" by (auto simp: descs_def)
    show ?thesis unfolding ctx_inv_def d
    proof (intro ballI impI)
      fix b assume b: "b \<in> insert (brk s) (descs s)" and r: "state (heap s' b) = GTTHREAD_RUNNING"
      show "ucp (heap s' b) \<noteq> None"
      proof (cases "b = brk s")
        case True
        with e show ?thesis by simp
      next
        case False
        with b have bd: "b \<in> descs s" by simp
        from False e have "heap s' b = heap s b" by simp
        with c bd r show ?thesis by (simp add: ctx_inv_def)
      qed
    qed
  qed
  from step_ids [OF st inv] show ?thesis
  proof
    assume "\<exists>p f a hst. gtthread_create s p f a hst = Return 0 s'"
    with cr show ?thesis by blast
  next
    assume "same_ids s s'"
    then have d: "descs s' = descs s" by (simp add: same_ids_def)
    from step_effect [OF st inv] consider
      (k) "\<forall>a. kept s s' a" | (e) "exit_effect s s'" | (cn) "cancel_effect s s'"
      | (cr) "\<exists>p f a hst. gtthread_create s p f a hst = Return 0 s'" by blast
    then show ?thesis
    proof cases
      case k
      with c show ?thesis by (auto simp: ctx_inv_def d kept_def)
    next
      case e
      show ?thesis unfolding ctx_inv_def d
      proof (intro ballI impI)
        fix b assume b: "b \<in> descs s" and r: "state (heap s' b) = GTTHREAD_RUNNING"
        with e have "b \<noteq> current s" by (auto simp: exit_effect_def)
        with e have "kept s s' b" by (simp add: exit_effect_def)
        with c b r show "ucp (heap s' b) \<noteq> None" by (simp add: ctx_inv_def kept_def)
      qed
    next
      case cn
      then obtain t where t: "\<forall>a. a \<noteq> t \<longrightarrow> kept s s' a" "state (heap s' t) = GTTHREAD_CANCEL"
        by (auto simp: cancel_effect_def)
      show ?thesis unfolding ctx_inv_def d
      proof (intro ballI impI)
        fix b assume b: "b \<in> descs s" and r: "state (heap s' b) = GTTHREAD_RUNNING"
        with t(2) have "b \<noteq> t" by auto
        with t(1) have "kept s s' b" by simp
        with c b r show "ucp (heap s' b) \<noteq> None" by (simp add: ctx_inv_def kept_def)
      qed
    next
      case cr
      with \<open>\<And>p f a hst. gtthread_create s p f a hst = Return 0 s' \<Longrightarrow> ctx_inv s'\<close>
      show ?thesis by blast
    qed
  qed
qed

lemma reachable_ctx: "reachable s \<Longrightarrow> ctx_inv s"
proof (induction rule: reachable.induct)
  case (reach_init period hst h m s)
  then show ?case by (rule init_ctx)
next
  case (reach_step s s')
  from step_ctx [OF reach_step(2) reachable_inv [OF reach_step(1)] reach_step(3)]
  show ?case .
qed

text \<open>A call of \<open>gtthread_cancel\<close> on a target that is RUNNING, has a context and is not the caller.\<close>

lemma cancel_ok:
  assumes t: "thread_get s i = Some t" and ne: "i \<noteq> tid (heap s (current s))"
    and r: "state (heap s t) = GTTHREAD_RUNNING" and u: "ucp (heap s t) \<noteq> None"
  shows "\<exists>s'. gtthread_cancel s i = Return 0 s'"
proof -
  have g: "thread_get (sigprocmask_block s) i = Some t"
    using t by (simp add: thread_get_def cong: option.case_cong)
  from u obtain c where "ucp (heap s t) = Some c" by auto
  with g ne r show ?thesis
    by (simp add: gtthread_cancel_def gtthread_equal_def Let_def)
qed

subsection \<open>Where a descriptor is\<close>

text \<open>
  C1, as the code has it. In every state a program reaches (no call having
  handed a \<open>NULL\<close> context to \<open>swapcontext\<close> or \<open>setcontext\<close> or popped the
  empty ready queue), the running descriptor is in neither queue and the ready
  queue holds no descriptor twice. A descriptor can be in the ready queue and in
  the zombie queue at once, and then it is cancelled. \<open>gtthread_cancel\<close> of a
  target that \<open>thread_get\<close> finds, that is not the caller and is RUNNING,
  returns 0; and whenever it returns 0 the target was in the ready queue, is
  marked CANCEL and appended to the zombie queue, and the ready queue is left
  as it is, so that the target is in both queues.
\<close>

theorem cancel_leaves_in_ready_queue:
  assumes "reachable s"
  shows "current s \<notin> set (ready_queue s) \<and> current s \<notin> set (zombie_queue s)
     \<and> distinct (ready_queue s)
     \<and> (\<forall>a \<in> set (ready_queue s). a \<in> set (zombie_queue s) \<longrightarrow> state (heap s a) = GTTHREAD_CANCEL)
     \<and> (\<forall>i t. thread_get s i = Some t \<and> i \<noteq> tid (heap s (current s))
               \<and> state (heap s t) = GTTHREAD_RUNNING \<longrightarrow>
          (\<exists>s'. gtthread_cancel s i = Return 0 s'))
     \<and> (\<forall>i s'. gtthread_cancel s i = Return 0 s' \<longrightarrow>
          (\<exists>t. thread_get s i = Some t \<and> t \<noteq> current s \<and> state (heap s t) = GTTHREAD_RUNNING
             \<and> t \<in> set (ready_queue s)
             \<and> ready_queue s' = ready_queue s
             \<and> zombie_queue s' = zombie_queue s @ [t]
             \<and> current s' = current s
             \<and> state (heap s' t) = GTTHREAD_CANCEL))"
proof -
  note inv = reachable_inv [OF assms]
  note D = sched_invD [OF inv]
  have ov: "\<forall>a \<in> set (ready_queue s). a \<in> set (zombie_queue s) \<longrightarrow> state (heap s a) = GTTHREAD_CANCEL"
  proof (intro ballI impI)
    fix a assume "a \<in> set (ready_queue s)" "a \<in> set (zombie_queue s)"
    with D(5) [of a] D(7) [of a] show "state (heap s a) = GTTHREAD_CANCEL"
      by (cases "state (heap s a)") auto
  qed
  have ok: "\<exists>s'. gtthread_cancel s i = Return 0 s'"
    if "thread_get s i = Some t \<and> i \<noteq> tid (heap s (current s))
        \<and> state (heap s t) = GTTHREAD_RUNNING" for i t
  proof -
    from that have t: "thread_get s i = Some t" and ne: "i \<noteq> tid (heap s (current s))"
      and r: "state (heap s t) = GTTHREAD_RUNNING" by simp_all
    from thread_get_Some [OF t] have "t \<in> descs s" by (auto simp: descs_def)
    with reachable_ctx [OF assms] r have "ucp (heap s t) \<noteq> None" by (simp add: ctx_inv_def)
    from cancel_ok [OF t ne r this] show ?thesis .
  qed
  have c: "\<exists>t. thread_get s i = Some t \<and> t \<noteq> current s \<and> state (heap s t) = GTTHREAD_RUNNING
             \<and> t \<in> set (ready_queue s)
             \<and> ready_queue s' = ready_queue s
             \<and> zombie_queue s' = zombie_queue s @ [t]
             \<and> current s' = current s
             \<and> state (heap s' t) = GTTHREAD_CANCEL"
    if "gtthread_cancel s i = Return 0 s'" for i s'
  proof -
    from cancel_Return [OF that] obtain t where t: "thread_get s i = Some t"
      "state (heap s t) = GTTHREAD_RUNNING" "ready_queue s' = ready_queue s"
      "zombie_queue s' = zombie_queue s @ [t]" "current s' = current s"
      "heap s' = (heap s)(t := (heap s t)\<lparr>state := GTTHREAD_CANCEL, ucp := None, joining := 0\<rparr>)"
      by auto
    from thread_get_Some [OF t(1)] D(5) [of t] t(2) have tr: "t \<in> set (ready_queue s)"
      by auto
    with D(1) have "t \<noteq> current s" by auto
    with t tr show ?thesis by simp
  qed
  from D(1,2,3) ov ok c show ?thesis by blast
qed

theorem cancel_leaves_in_ready_queue_witness:
  "reachable st_one
   \<and> current st_one \<notin> set (ready_queue st_one) \<and> current st_one \<notin> set (zombie_queue st_one)
   \<and> distinct (ready_queue st_one)
   \<and> thread_get st_one 2 = Some 2 \<and> 2 \<noteq> tid (heap st_one (current st_one))
   \<and> state (heap st_one 2) = GTTHREAD_RUNNING
   \<and> gtthread_cancel st_one 2 = Return 0 st_cancelled
   \<and> 2 \<in> set (ready_queue st_one)
   \<and> ready_queue st_cancelled = ready_queue st_one
   \<and> zombie_queue st_cancelled = zombie_queue st_one @ [2]
   \<and> state (heap st_cancelled 2) = GTTHREAD_CANCEL
   \<and> reachable st_cancelled
   \<and> 2 \<in> set (ready_queue st_cancelled) \<and> 2 \<in> set (zombie_queue st_cancelled)
   \<and> current st_cancelled \<notin> set (ready_queue st_cancelled)
   \<and> current st_cancelled \<notin> set (zombie_queue st_cancelled)"
  using cancel_leaves_in_ready_queue [OF reachable_st_one]
    cancel_leaves_in_ready_queue [OF reachable_st_cancelled]
    run_cancel_A reachable_st_one reachable_st_cancelled
  by (simp add: st_defs thread_get_def)

text \<open>
  C1 as stated fails: the main thread creates A and cancels it, and A is in the
  ready queue and in the zombie queue.
\<close>

theorem cancelled_in_both_queues:
  "reachable st_cancelled
   \<and> gtthread_cancel st_one 2 = Return 0 st_cancelled
   \<and> tid (heap st_one (current st_one)) = 1
   \<and> state (heap st_one 2) = GTTHREAD_RUNNING
   \<and> 2 \<in> set (ready_queue st_cancelled) \<and> 2 \<in> set (zombie_queue st_cancelled)"
  using reachable_st_cancelled run_cancel_A by (simp add: st_defs)

subsection \<open>gtthread\_init\<close>

text \<open>
  \<open>gtthread_init\<close> calls \<open>steque_init\<close> on the ready queue only; the
  zombie queue is the one it finds.
\<close>

lemma gtthread_init_zombie_queue:
  "gtthread_init period hst s = Return u s' \<Longrightarrow> zombie_queue s' = zombie_queue s"
  by (auto simp: gtthread_init_def malloc_def Let_def sigprocmask_unblock_def split: if_splits)





subsection \<open>A descriptor that is DONE or CANCEL\<close>




subsection \<open>The joining field\<close>























end
